theory Spec2Isabelle
  imports Complex_Main "HOL-Library.Word" "HOL-Library.AList"
begin

unbundle bit_operations_syntax

section \<open>Encoded rotations (Matrix3x3)\<close>

text \<open>
  A \<open>Matrix3x3\<close> is a \<open>uint8\<close> that encodes a 3x3 matrix with entries 0, +1, -1.
  Go's \<open>int\<close> results of \<open>Get\<close> are the mathematical integers -1, 0 and 1; the bit
  arithmetic on the code itself is 8-bit and wraps, as in the source.
\<close>

type_synonym Matrix3x3 = "8 word"

definition Matrix3x3Identity :: Matrix3x3 where
  "Matrix3x3Identity = 4"

definition eqm3 :: "int \<Rightarrow> Matrix3x3 \<Rightarrow> int" where
  "eqm3 a b = (if a = uint b then 1 else 0)"

definition signm3 :: "Matrix3x3 \<Rightarrow> int" where
  "signm3 x = (if x = 0 then 1 else - 1)"

definition Valid :: "Matrix3x3 \<Rightarrow> bool" where
  "Valid m =
     (let one1 = m AND 3;
          one2 = drop_bit 2 m AND 3
      in m AND 128 = 0 \<and> one1 \<noteq> one2 \<and> one1 \<noteq> 3 \<and> one2 \<noteq> 3)"

definition Get :: "Matrix3x3 \<Rightarrow> int \<Rightarrow> int \<Rightarrow> int" where
  "Get m i j =
     (if i = 0 then eqm3 j (m AND 3) * signm3 (drop_bit 4 m AND 1)
      else if i = 1 then eqm3 j (drop_bit 2 m AND 3) * signm3 (drop_bit 5 m AND 1)
      else eqm3 j (3 - (m AND 3) - (drop_bit 2 m AND 3)) * signm3 (drop_bit 6 m AND 1))"

text \<open>The body of the innermost loop of \<open>Mul\<close>, for one triple \<open>(i, j, k)\<close>.\<close>

definition Mul_body :: "Matrix3x3 \<Rightarrow> Matrix3x3 \<Rightarrow> int \<Rightarrow> int \<Rightarrow> int \<Rightarrow> Matrix3x3 \<Rightarrow> Matrix3x3" where
  "Mul_body a b i j k r =
     (let x = Get a i j * Get b j k
      in if x = 0 then r
         else let r1 = (if x < 0 then r OR push_bit (nat (i + 4)) 1 else r)
              in if i < 2 then r1 OR push_bit (nat (2 * i)) (word_of_int k) else r1)"

definition Mul :: "Matrix3x3 \<Rightarrow> Matrix3x3 \<Rightarrow> Matrix3x3" where
  "Mul a b =
     fold (\<lambda>i. fold (\<lambda>j. fold (\<lambda>k. Mul_body a b i j k) [0, 1, 2]) [0, 1, 2]) [0, 1, 2] 0"

text \<open>
  Go's \<open>int\<close> has 64 bits here (the package assigns \<open>math.MaxInt64\<close> to an \<open>int\<close>), and its
  arithmetic wraps around. The values of an \<open>int\<close> are the integers from \<open>-2^63\<close> to
  \<open>2^63 - 1\<close> (\<open>isInt64\<close>); \<open>wrap64\<close> brings the exact result of an operation back into
  that range, and \<open>add64\<close>, \<open>sub64\<close>, \<open>mul64\<close> and \<open>neg64\<close> are Go's \<open>+\<close>, \<open>-\<close>, \<open>*\<close> and
  unary \<open>-\<close> on \<open>int\<close>.
\<close>

definition wrap64 :: "int \<Rightarrow> int" where
  "wrap64 x = signed_take_bit 63 x"

definition isInt64 :: "int \<Rightarrow> bool" where
  "isInt64 x = (- (2 ^ 63) \<le> x \<and> x < 2 ^ 63)"

definition add64 :: "int \<Rightarrow> int \<Rightarrow> int" where
  "add64 a b = wrap64 (a + b)"


definition mul64 :: "int \<Rightarrow> int \<Rightarrow> int" where
  "mul64 a b = wrap64 (a * b)"

definition neg64 :: "int \<Rightarrow> int" where
  "neg64 a = wrap64 (- a)"

text \<open>A \<open>[3]int\<close> array is a triple; \<open>vget\<close> reads it by index.\<close>

type_synonym vec3 = "int \<times> int \<times> int"

definition vget :: "vec3 \<Rightarrow> int \<Rightarrow> int" where
  "vget v j = (case v of (x, y, z) \<Rightarrow> if j = 0 then x else if j = 1 then y else z)"

definition isInt64Vec :: "vec3 \<Rightarrow> bool" where
  "isInt64Vec v = (isInt64 (vget v 0) \<and> isInt64 (vget v 1) \<and> isInt64 (vget v 2))"

definition MulVec_row :: "Matrix3x3 \<Rightarrow> vec3 \<Rightarrow> int \<Rightarrow> int" where
  "MulVec_row m x i = fold (\<lambda>j r. add64 r (mul64 (Get m i j) (vget x j))) [0, 1, 2] 0"

definition MulVec :: "Matrix3x3 \<Rightarrow> vec3 \<Rightarrow> vec3" where
  "MulVec m x = (MulVec_row m x 0, MulVec_row m x 1, MulVec_row m x 2)"

text \<open>
  The table \<open>matInverses\<close> is filled once by \<open>init\<close>: for every valid \<open>m\<close> below 128, every
  valid \<open>r\<close> below 128 with \<open>m.Mul(r) == 0x04\<close> is stored at index \<open>m\<close>, a later \<open>r\<close>
  overwriting an earlier one. Entries never written keep the zero value.
\<close>

definition codes128 :: "Matrix3x3 list" where
  "codes128 = map word_of_nat [0..<128]"

definition init_inner :: "Matrix3x3 \<Rightarrow> Matrix3x3 \<Rightarrow> (Matrix3x3 \<Rightarrow> Matrix3x3) \<Rightarrow> (Matrix3x3 \<Rightarrow> Matrix3x3)" where
  "init_inner m r tab = (if \<not> Valid r then tab else if Mul m r = 4 then tab(m := r) else tab)"

definition init_outer :: "Matrix3x3 \<Rightarrow> (Matrix3x3 \<Rightarrow> Matrix3x3) \<Rightarrow> (Matrix3x3 \<Rightarrow> Matrix3x3)" where
  "init_outer m tab = (if \<not> Valid m then tab else fold (init_inner m) codes128 tab)"

definition matInverses :: "Matrix3x3 \<Rightarrow> Matrix3x3" where
  "matInverses = fold init_outer codes128 (\<lambda>_. 0)"

definition Inverse :: "Matrix3x3 \<Rightarrow> Matrix3x3" where
  "Inverse m = (if m \<ge> 128 then 0 else matInverses m)"

subsection \<open>The test helper \<open>vecSeemsPlausible\<close>\<close>

text \<open>
  \<open>vecSeemsPlausible(a, b)\<close> of the matrix tests checks that \<open>b\<close> is a permutation of \<open>a\<close>,
  possibly with sign changes; it returns \<open>nil\<close> (here \<open>True\<close>) at the first permutation
  \<open>(i, j, k)\<close> of the indices that fits.
\<close>

definition abseq :: "int \<Rightarrow> int \<Rightarrow> bool" where
  "abseq a b = (a = b \<or> a = neg64 b)"

definition vecSeemsPlausible :: "vec3 \<Rightarrow> vec3 \<Rightarrow> bool" where
  "vecSeemsPlausible a b =
     list_ex (\<lambda>i. list_ex (\<lambda>j2.
        let j = (if j2 \<ge> i then j2 + 1 else j2);
            k = 3 - i - j
        in abseq (vget a 0) (vget b i) \<and> abseq (vget a 1) (vget b j) \<and> abseq (vget a 2) (vget b k))
      [0, 1]) [0, 1, 2]"

subsection \<open>Decoding a code into positions and signs\<close>

text \<open>
  The row-wise reading of a code that \<open>Get\<close> uses: \<open>pos m i\<close> is the column of the entry of
  row \<open>i\<close> and \<open>sgn3 m i\<close> its sign. \<open>enc\<close> is the value that the loop of \<open>Mul\<close> builds
  from the three columns and signs it finds. \<open>idx3\<close> holds the indices of a 3-element array.
\<close>

definition pos :: "Matrix3x3 \<Rightarrow> int \<Rightarrow> int" where
  "pos m i = (if i = 0 then uint (m AND 3) else if i = 1 then uint (drop_bit 2 m AND 3)
              else uint (3 - (m AND 3) - (drop_bit 2 m AND 3)))"

definition sgn3 :: "Matrix3x3 \<Rightarrow> int \<Rightarrow> int" where
  "sgn3 m i = (if i = 0 then signm3 (drop_bit 4 m AND 1) else if i = 1 then signm3 (drop_bit 5 m AND 1)
              else signm3 (drop_bit 6 m AND 1))"

definition enc :: "int \<Rightarrow> int \<Rightarrow> int \<Rightarrow> int \<Rightarrow> int \<Rightarrow> Matrix3x3" where
  "enc k0 k1 x0 x1 x2 =
     (if x0 < 0 then 16 else 0) OR word_of_int k0 OR (if x1 < 0 then 32 else 0)
       OR push_bit 2 (word_of_int k1) OR (if x2 < 0 then 64 else 0)"

definition idx3 :: "int set" where "idx3 = {0, 1, 2}"

section \<open>The reader (voxReader) and dictionaries (dict)\<close>

text \<open>
  Errors are values. \<open>fmt.Errorf(format, args...)\<close> is kept as the format string of the
  source with its arguments; \<open>io.EOF\<close> and \<open>io.ErrUnexpectedEOF\<close> are the two errors of
  \<open>io.ReadFull\<close>; a run-time panic (a negative length given to \<open>make\<close>, an index out of
  range) is an error value too, since nothing in the package recovers from it.
\<close>

datatype error =
    EOF
  | ErrUnexpectedEOF
  | Panic string
  | Errorf string "arg list"
and arg =
    ArgInt int
  | ArgStr string
  | ArgErr error

type_synonym byte = "8 word"

text \<open>Go's \<open>string(bs)\<close> of a byte slice, and the bytes of a string.\<close>

definition string_of_bytes :: "byte list \<Rightarrow> string" where
  "string_of_bytes bs = map (\<lambda>b. char_of (unat b)) bs"

definition bytes_of_string :: "string \<Rightarrow> byte list" where
  "bytes_of_string s = map (\<lambda>c. of_char c) s"

text \<open>
  The reader holds the input still to be read and the latched error. The \<open>io.Reader\<close> is a
  finite stream of bytes without I/O failures (a \<open>bytes.Reader\<close>, or a file read to its end).
\<close>

record voxReader =
  vr_r :: "byte list"
  vr_err :: "error option"

definition newReader :: "byte list \<Rightarrow> voxReader" where
  "newReader c = \<lparr>vr_r = c, vr_err = None\<rparr>"

definition Error :: "voxReader \<Rightarrow> error option" where
  "Error vr = vr_err vr"

text \<open>
  \<open>io.ReadFull(src, buf)\<close> with \<open>len(buf) = n\<close>: the buffer after the call, the rest of the
  source and the error. The bytes that could be read are in the buffer also on a short read;
  the error is \<open>io.EOF\<close> when no byte was read and \<open>io.ErrUnexpectedEOF\<close> otherwise. Reading
  no bytes succeeds even at the end of the input.
\<close>

definition ReadFull :: "byte list \<Rightarrow> nat \<Rightarrow> byte list \<times> byte list \<times> error option" where
  "ReadFull src n =
     (if n \<le> length src then (take n src, drop n src, None)
      else (src @ replicate (n - length src) 0, [],
            Some (if src = [] then EOF else ErrUnexpectedEOF)))"

text \<open>\<open>ReadBytes(n)\<close> for \<open>n \<ge> 0\<close>; \<open>make([]byte, n)\<close> is zero-filled.\<close>

definition ReadBytesN :: "nat \<Rightarrow> voxReader \<Rightarrow> byte list \<times> voxReader" where
  "ReadBytesN n vr =
     (if vr_err vr \<noteq> None then (replicate n 0, vr)
      else (case ReadFull (vr_r vr) n of
              (buf, rest, e) \<Rightarrow> (buf, \<lparr>vr_r = rest, vr_err = e\<rparr>)))"

text \<open>\<open>ReadBytes(n)\<close> for any \<open>int\<close>: \<open>make\<close> panics when the length is negative.\<close>

definition ReadBytes :: "int \<Rightarrow> voxReader \<Rightarrow> error + byte list \<times> voxReader" where
  "ReadBytes n vr =
     (if n < 0 then Inl (Panic ''makeslice: len out of range'')
      else Inr (ReadBytesN (nat n) vr))"

definition ReadUint8 :: "voxReader \<Rightarrow> byte \<times> voxReader" where
  "ReadUint8 vr = (case ReadBytesN 1 vr of (b, vr') \<Rightarrow> (b ! 0, vr'))"

text \<open>An \<open>int32\<close> is kept as the integer it denotes: \<open>sint\<close> of the 32-bit sum.\<close>

definition ReadInt32 :: "voxReader \<Rightarrow> int \<times> voxReader" where
  "ReadInt32 vr =
     (case ReadBytesN 4 vr of
        (b, vr') \<Rightarrow>
          let u = (ucast (b ! 0) + push_bit 8 (ucast (b ! 1))
                   + push_bit 16 (ucast (b ! 2)) + push_bit 24 (ucast (b ! 3)) :: 32 word)
          in (sint u, vr'))"

text \<open>
  \<open>RequireEOF\<close> checks that all input has been consumed. \<open>parse.go\<close> passes the name of the
  chunk, which the message carries.
\<close>

definition RequireEOF :: "string \<Rightarrow> voxReader \<Rightarrow> voxReader" where
  "RequireEOF chunk vr =
     (if Error vr \<noteq> None then vr
      else (case ReadUint8 vr of
              (_, vr') \<Rightarrow>
                (case Error vr' of
                   None \<Rightarrow> vr'\<lparr>vr_err := Some (Errorf ''expected EOF in chunk %s, but found at least one more byte'' [ArgStr chunk])\<rparr>
                 | Some e \<Rightarrow> if e = EOF then vr'\<lparr>vr_err := None\<rparr> else vr')))"

definition ReadString :: "voxReader \<Rightarrow> error + string \<times> voxReader" where
  "ReadString vr =
     (case ReadInt32 vr of
        (n, vr1) \<Rightarrow>
          (case ReadBytes n vr1 of
             Inl e \<Rightarrow> Inl e
           | Inr (bs, vr2) \<Rightarrow> Inr (string_of_bytes bs, vr2)))"

text \<open>
  A \<open>dict\<close>: the map \<open>d\<close> as an association list with one entry per key, the names marked
  in \<open>read\<close>, and the latched error.
\<close>

record dict =
  dict_d :: "(string \<times> string) list"
  dict_read :: "string list"
  dict_err :: "error option"

primrec ReadDict_loop :: "nat \<Rightarrow> (string \<times> string) list \<Rightarrow> voxReader
    \<Rightarrow> error + (string \<times> string) list \<times> voxReader" where
  "ReadDict_loop 0 d vr = Inr (d, vr)"
| "ReadDict_loop (Suc i) d vr =
     (case ReadString vr of
        Inl e \<Rightarrow> Inl e
      | Inr (key, vr1) \<Rightarrow>
          (case ReadString vr1 of
             Inl e \<Rightarrow> Inl e
           | Inr (val, vr2) \<Rightarrow> ReadDict_loop i (AList.update key val d) vr2))"

definition ReadDict :: "voxReader \<Rightarrow> error + dict \<times> voxReader" where
  "ReadDict vr =
     (case ReadInt32 vr of
        (n, vr1) \<Rightarrow>
          (case ReadDict_loop (nat n) [] vr1 of
             Inl e \<Rightarrow> Inl e
           | Inr (d, vr2) \<Rightarrow> Inr (\<lparr>dict_d = d, dict_read = [], dict_err = Error vr2\<rparr>, vr2)))"

definition dict_Error :: "dict \<Rightarrow> error option" where
  "dict_Error d = dict_err d"

text \<open>
  The unread keys are listed in the order of the association list; Go ranges over the map
  in an unspecified order, which only shows in the text of the message.
\<close>

definition AssertNoUnreadFields :: "dict \<Rightarrow> error option" where
  "AssertNoUnreadFields d =
     (let uk = filter (\<lambda>k. k \<notin> set (dict_read d)) (map fst (dict_d d))
      in if length uk \<noteq> 0 then Some (Errorf ''unknown field[s] in dict: %s'' (map ArgStr uk))
         else None)"

text \<open>
  What the package takes from outside: \<open>strconv.ParseFloat(s, 32)\<close> (\<open>None\<close> when it
  returns an error), the decoders of a rotation and of a translation from their
  dictionary strings, and the order in which the runtime ranges over the keys of a map
  (given the keys in the order of insertion). A \<open>float32\<close> is kept as the real number it
  denotes; rounding is not modelled and no property below depends on it.
\<close>

record runtime =
  ParseFloat :: "string \<Rightarrow> real option"
  DecodeMatrix3x3 :: "string \<Rightarrow> Matrix3x3 option"
  Decode3xInt32 :: "string \<Rightarrow> (int \<times> int \<times> int) option"
  rangeOrder :: "int list \<Rightarrow> int list"

definition ReadFloat :: "runtime \<Rightarrow> string \<Rightarrow> real \<Rightarrow> dict \<Rightarrow> real \<times> dict" where
  "ReadFloat rt name def d =
     (let d1 = d\<lparr>dict_read := name # dict_read d\<rparr>
      in if dict_err d1 \<noteq> None then (def, d1)
         else (case map_of (dict_d d1) name of
                 None \<Rightarrow> (def, d1)
               | Some r \<Rightarrow>
                   (case ParseFloat rt r of
                      None \<Rightarrow> (0, d1\<lparr>dict_err := Some (Errorf ''error parsing float %q in field %q: %v'' [ArgStr r, ArgStr name])\<rparr>)
                    | Some f \<Rightarrow> (f, d1))))"

definition ReadBool :: "runtime \<Rightarrow> string \<Rightarrow> bool \<Rightarrow> dict \<Rightarrow> bool \<times> dict" where
  "ReadBool rt name def d =
     (let df = (if def then 1 else 0)
      in case ReadFloat rt name df d of (f, d1) \<Rightarrow> (f \<noteq> 0, d1))"

definition dict_ReadString :: "string \<Rightarrow> string \<Rightarrow> dict \<Rightarrow> string \<times> dict" where
  "dict_ReadString name def d =
     (let d1 = d\<lparr>dict_read := name # dict_read d\<rparr>
      in if dict_err d1 \<noteq> None then (def, d1)
         else (case map_of (dict_d d1) name of
                 None \<Rightarrow> (def, d1)
               | Some r \<Rightarrow> (r, d1)))"

text \<open>
  Modelled from the spec: \<open>ReadMatrix3x3\<close> and \<open>Read3xInt32\<close> of \<open>dict\<close> are called by
  \<open>parsenTRNChunk\<close> but are not among the sources. The spec gives the frame dictionary
  \<open>_r\<close> (a rotation code, default the identity) and \<open>_t\<close> (three integers, default
  \<open>{0,0,0}\<close>), read with the per-key tracking, the defaults and the latched error of the
  other accessors; a value that does not decode is a dictionary error.
\<close>

definition ReadMatrix3x3 :: "runtime \<Rightarrow> string \<Rightarrow> Matrix3x3 \<Rightarrow> dict \<Rightarrow> Matrix3x3 \<times> dict" where
  "ReadMatrix3x3 rt name def d =
     (let d1 = d\<lparr>dict_read := name # dict_read d\<rparr>
      in if dict_err d1 \<noteq> None then (def, d1)
         else (case map_of (dict_d d1) name of
                 None \<Rightarrow> (def, d1)
               | Some r \<Rightarrow>
                   (case DecodeMatrix3x3 rt r of
                      None \<Rightarrow> (def, d1\<lparr>dict_err := Some (Errorf ''error parsing matrix %q in field %q'' [ArgStr r, ArgStr name])\<rparr>)
                    | Some m \<Rightarrow> (m, d1))))"

definition Read3xInt32 :: "runtime \<Rightarrow> string \<Rightarrow> int \<times> int \<times> int \<Rightarrow> dict \<Rightarrow> (int \<times> int \<times> int) \<times> dict" where
  "Read3xInt32 rt name def d =
     (let d1 = d\<lparr>dict_read := name # dict_read d\<rparr>
      in if dict_err d1 \<noteq> None then (def, d1)
         else (case map_of (dict_d d1) name of
                 None \<Rightarrow> (def, d1)
               | Some r \<Rightarrow>
                   (case Decode3xInt32 rt r of
                      None \<Rightarrow> (def, d1\<lparr>dict_err := Some (Errorf ''error parsing 3 x int32 %q in field %q'' [ArgStr r, ArgStr name])\<rparr>)
                    | Some t \<Rightarrow> (t, d1))))"

section \<open>The document (vox.go)\<close>

record Voxel =
  Voxel_X :: byte
  Voxel_Y :: byte
  Voxel_Z :: byte
  ColorIndex :: byte

record Model =
  Model_X :: int
  Model_Y :: int
  Model_Z :: int
  Model_V :: "Voxel list"

record Layer =
  Layer_Index :: int
  Layer_Name :: string
  Layer_Hidden :: bool

record TransformFrame =
  frame_R :: Matrix3x3
  frame_T :: "int \<times> int \<times> int"

text \<open>
  Scene nodes are heap objects that \<open>buildScene\<close> links by pointer. Every node is created
  by one chunk and entered once in \<open>sceneIDs\<close> under its id, so the id serves as the node's
  address: a pointer to a node is the id, and \<open>nil\<close> is \<open>None\<close>. The pointers
  \<open>&models[i]\<close> of a shape node are the indices \<open>i\<close>.
\<close>

record Node =
  Name :: string
  Hidden :: bool

record TransformNode = Node +
  Layer_ref :: "Layer option"
  Transforms :: "TransformFrame list"
  Child :: "int option"

record GroupNode = Node +
  Children :: "int list"

record ShapeNode = Node +
  Models :: "nat list"

datatype AnyNode = Transform TransformNode | Group GroupNode | Shape ShapeNode

text \<open>The heap of nodes is part of a scene, next to the pointer \<open>Node\<close> to its top.\<close>

record Scene =
  Layers :: "Layer list"
  Scene_Node :: "int option"
  Scene_heap :: "(int \<times> AnyNode) list"

datatype MaterialType = MaterialDiffuse | MaterialMetal | MaterialGlass | MaterialEmissive

type_synonym RGBA = "byte \<times> byte \<times> byte \<times> byte"

record Material =
  Color :: RGBA
  Type :: MaterialType
  Weight :: real
  Plastic :: bool
  Roughness :: real
  Specular :: real
  IOR :: real
  Attenuation :: real
  Flux :: real
  LDR :: real

text \<open>\<open>Material{}\<close>, the zero value.\<close>

definition Material_zero :: Material where
  "Material_zero = \<lparr>Color = (0, 0, 0, 0), Type = MaterialDiffuse, Weight = 0, Plastic = False,
     Roughness = 0, Specular = 0, IOR = 0, Attenuation = 0, Flux = 0, LDR = 0\<rparr>"

record Main =
  Main_Models :: "Model list"
  Materials :: "Material list"
  Main_Scene :: Scene

section \<open>The parser (parse.go)\<close>

definition version :: int where
  "version = 150"

text \<open>
  \<open>parseChunk\<close> returns the ID, the contents and the child contents of the next chunk,
  with the reader behind it, or the reader's error.
\<close>

definition parseChunk :: "voxReader \<Rightarrow> error + string \<times> byte list \<times> byte list \<times> voxReader" where
  "parseChunk vr =
     (case ReadBytesN 4 vr of
        (ident, vr1) \<Rightarrow>
     (case ReadInt32 vr1 of
        (N, vr2) \<Rightarrow>
     (case ReadInt32 vr2 of
        (M, vr3) \<Rightarrow>
     (case Error vr3 of
        Some e \<Rightarrow> Inl e
      | None \<Rightarrow>
     (case ReadBytes N vr3 of
        Inl e \<Rightarrow> Inl e
      | Inr (c, vr4) \<Rightarrow>
     (case ReadBytes M vr4 of
        Inl e \<Rightarrow> Inl e
      | Inr (cc, vr5) \<Rightarrow>
     (case Error vr5 of
        Some e \<Rightarrow> Inl e
      | None \<Rightarrow> Inr (string_of_bytes ident, c, cc, vr5))))))))"

text \<open>
  \<open>buildMain\<close>: the loop \<open>mats[i].Color = rgba[i-1]\<close> for \<open>i\<close> from 1 to 255 indexes
  \<open>mats\<close> out of range, and panics, unless \<open>mats\<close> has 256 entries.
\<close>

definition setColors :: "RGBA list \<Rightarrow> Material list \<Rightarrow> Material list" where
  "setColors rgba mats = fold (\<lambda>i ms. ms[i := (ms ! i)\<lparr>Color := rgba ! (i - 1)\<rparr>]) [1..<256] mats"

definition buildMain :: "Model list \<Rightarrow> RGBA list \<Rightarrow> Material list \<Rightarrow> Scene \<Rightarrow> error + Main" where
  "buildMain models rgba mats scene =
     (if length rgba \<noteq> 256
        then Inl (Errorf ''expected 256 palette entries, but found %d'' [ArgInt (int (length rgba))])
      else if length mats < 256 then Inl (Panic ''index out of range'')
      else Inr \<lparr>Main_Models = models, Materials = setColors rgba mats, Main_Scene = scene\<rparr>)"

text \<open>
  Two shorthands for the error plumbing of the decoders: \<open>bindE\<close> stops at a panic of a
  read, and \<open>guardE x wrap rest\<close> is \<open>if err := x; err != nil { return wrap(err) }\<close>
  followed by \<open>rest\<close>.
\<close>

definition bindE :: "error + 'a \<Rightarrow> ('a \<Rightarrow> error + 'b) \<Rightarrow> error + 'b" where
  "bindE x f = (case x of Inl e \<Rightarrow> Inl e | Inr v \<Rightarrow> f v)"

definition guardE :: "error option \<Rightarrow> (error \<Rightarrow> error) \<Rightarrow> error + 'b \<Rightarrow> error + 'b" where
  "guardE x wrap rest = (case x of Some e \<Rightarrow> Inl (wrap e) | None \<Rightarrow> rest)"

text \<open>
  \<open>parsePackChunk\<close>, \<open>parseSizeChunk\<close>, \<open>parseXYZIChunk\<close> and \<open>parseRGBAChunk\<close> return
  their value together with \<open>vr.Error()\<close>.
\<close>

definition parsePackChunk :: "byte list \<Rightarrow> int \<times> error option" where
  "parsePackChunk c =
     (let vr = newReader c;
          (n, vr) = ReadInt32 vr;
          vr = RequireEOF ''PACK'' vr
      in (n, Error vr))"

definition parseSizeChunk :: "byte list \<Rightarrow> (int \<times> int \<times> int) \<times> error option" where
  "parseSizeChunk c =
     (let vr = newReader c;
          (x, vr) = ReadInt32 vr;
          (y, vr) = ReadInt32 vr;
          (z, vr) = ReadInt32 vr;
          vr = RequireEOF ''SIZE'' vr
      in ((x, y, z), Error vr))"

primrec XYZI_loop :: "nat \<Rightarrow> Voxel list \<Rightarrow> voxReader \<Rightarrow> Voxel list \<times> voxReader" where
  "XYZI_loop 0 v vr = (v, vr)"
| "XYZI_loop (Suc i) v vr =
     (let (x, vr) = ReadUint8 vr;
          (y, vr) = ReadUint8 vr;
          (z, vr) = ReadUint8 vr;
          (idx, vr) = ReadUint8 vr
      in XYZI_loop i (v @ [\<lparr>Voxel_X = x, Voxel_Y = y, Voxel_Z = z, ColorIndex = idx\<rparr>]) vr)"

definition parseXYZIChunk :: "byte list \<Rightarrow> Voxel list \<times> error option" where
  "parseXYZIChunk c =
     (let vr = newReader c;
          (N, vr) = ReadInt32 vr;
          (v, vr) = XYZI_loop (nat N) [] vr;
          vr = RequireEOF ''XYZI'' vr
      in (v, Error vr))"

primrec RGBA_loop :: "nat \<Rightarrow> voxReader \<Rightarrow> RGBA list \<times> voxReader" where
  "RGBA_loop 0 vr = ([], vr)"
| "RGBA_loop (Suc i) vr =
     (let (cr, vr) = ReadUint8 vr;
          (cg, vr) = ReadUint8 vr;
          (cb, vr) = ReadUint8 vr;
          (ca, vr) = ReadUint8 vr;
          (rest, vr) = RGBA_loop i vr
      in ((cr, cg, cb, ca) # rest, vr))"

definition parseRGBAChunk :: "byte list \<Rightarrow> RGBA list \<times> error option" where
  "parseRGBAChunk c =
     (let vr = newReader c;
          (r, vr) = RGBA_loop 256 vr;
          vr = RequireEOF ''RGBA'' vr
      in (r, Error vr))"

primrec frames_loop :: "nat \<Rightarrow> dict list \<Rightarrow> voxReader \<Rightarrow> error + dict list \<times> voxReader" where
  "frames_loop 0 frames vr = Inr (frames, vr)"
| "frames_loop (Suc i) frames vr =
     bindE (ReadDict vr) (\<lambda>(d, vr). frames_loop i (frames @ [d]) vr)"

definition parsenTRNChunk :: "runtime \<Rightarrow> byte list \<Rightarrow> error + int \<times> int \<times> int \<times> TransformNode" where
  "parsenTRNChunk rt c =
     (let vr = newReader c;
          (ident, vr) = ReadInt32 vr
      in bindE (ReadDict vr) (\<lambda>(attr, vr).
     (let (childID, vr) = ReadInt32 vr;
          (reserved, vr) = ReadInt32 vr;
          (layerID, vr) = ReadInt32 vr;
          (nFrame, vr) = ReadInt32 vr
      in bindE (frames_loop (nat nFrame) [] vr) (\<lambda>(frames, vr).
     guardE (Error vr) (\<lambda>e. e)
     (if reserved \<noteq> - 1
        then Inl (Errorf ''reserved field in nTRN must be -1, got %d'' [ArgInt reserved])
      else if nFrame \<noteq> 1
        then Inl (Errorf ''must have one frame in nTRN chunk, got %d'' [ArgInt nFrame])
      else
     (let (name, attr) = dict_ReadString ''_name'' '''' attr;
          (hidden, attr) = ReadBool rt ''_hidden'' False attr
      in guardE (dict_Error attr) (\<lambda>e. Errorf ''error reading nTRN chunk: %v'' [ArgErr e])
        (guardE (AssertNoUnreadFields attr)
           (\<lambda>e. Errorf ''unexpected field or fields in nTRN attributes: %v'' [ArgErr e])
     (let (r, f0) = ReadMatrix3x3 rt ''_r'' Matrix3x3Identity (frames ! 0);
          (t, f0) = Read3xInt32 rt ''_t'' (0, 0, 0) f0
      in guardE (dict_Error f0) (\<lambda>e. Errorf ''error reading nTRN frame chunk: %v'' [ArgErr e])
        (guardE (AssertNoUnreadFields f0)
           (\<lambda>e. Errorf ''unexpected field or fields in nTRN frame: %v'' [ArgErr e])
     (let vr = RequireEOF ''nTRN'' vr
      in guardE (Error vr) (\<lambda>e. e)
           (Inr (ident, childID, layerID,
                 \<lparr>Name = name, Hidden = hidden, Layer_ref = None,
                  Transforms = [\<lparr>frame_R = r, frame_T = t\<rparr>], Child = None\<rparr>))))))))))))"

primrec childIDs_loop :: "nat \<Rightarrow> int list \<Rightarrow> voxReader \<Rightarrow> int list \<times> voxReader" where
  "childIDs_loop 0 ids vr = (ids, vr)"
| "childIDs_loop (Suc i) ids vr =
     (let (x, vr) = ReadInt32 vr in childIDs_loop i (ids @ [x]) vr)"

definition parsenGRPChunk :: "runtime \<Rightarrow> byte list \<Rightarrow> error + int \<times> int list \<times> GroupNode" where
  "parsenGRPChunk rt c =
     (let vr = newReader c;
          (ident, vr) = ReadInt32 vr
      in bindE (ReadDict vr) (\<lambda>(attr, vr).
     (let (nChild, vr) = ReadInt32 vr;
          (childIDs, vr) = childIDs_loop (nat nChild) [] vr
      in guardE (Error vr) (\<lambda>e. Errorf ''error reading nGRP chunk: %v'' [ArgErr e])
     (let (name, attr) = dict_ReadString ''_name'' '''' attr;
          (hidden, attr) = ReadBool rt ''_hidden'' False attr
      in guardE (dict_Error attr) (\<lambda>e. Errorf ''error reading nGRP chunk: %v'' [ArgErr e])
        (guardE (AssertNoUnreadFields attr)
           (\<lambda>e. Errorf ''unexpected fields in nGRP chunk attributes: %v'' [ArgErr e])
     (let vr = RequireEOF ''nGRP'' vr
      in guardE (Error vr) (\<lambda>e. e)
           (Inr (ident, childIDs, \<lparr>Name = name, Hidden = hidden, Children = []\<rparr>))))))))"

primrec modelIDs_loop :: "nat \<Rightarrow> int list \<Rightarrow> voxReader \<Rightarrow> error + int list \<times> voxReader" where
  "modelIDs_loop 0 ids vr = Inr (ids, vr)"
| "modelIDs_loop (Suc i) ids vr =
     (let (x, vr) = ReadInt32 vr
      in bindE (ReadDict vr) (\<lambda>(_, vr). modelIDs_loop i (ids @ [x]) vr))"

definition parsenSHPChunk :: "runtime \<Rightarrow> byte list \<Rightarrow> error + int \<times> int list \<times> ShapeNode" where
  "parsenSHPChunk rt c =
     (let vr = newReader c;
          (ident, vr) = ReadInt32 vr
      in bindE (ReadDict vr) (\<lambda>(attr, vr).
     (let (nModel, vr) = ReadInt32 vr
      in bindE (modelIDs_loop (nat nModel) [] vr) (\<lambda>(modelIDs, vr).
     guardE (Error vr) (\<lambda>e. Errorf ''error reading nSHP chunk: %v'' [ArgErr e])
     (let (name, attr) = dict_ReadString ''_name'' '''' attr;
          (hidden, attr) = ReadBool rt ''_hidden'' False attr
      in guardE (dict_Error attr) (\<lambda>e. Errorf ''error reading nSHP chunk: %v'' [ArgErr e])
        (guardE (AssertNoUnreadFields attr)
           (\<lambda>e. Errorf ''unexpected fields in nSHP chunk attributes: %v'' [ArgErr e])
     (let vr = RequireEOF ''nSHP'' vr
      in guardE (Error vr) (\<lambda>e. e)
           (Inr (ident, modelIDs, \<lparr>Name = name, Hidden = hidden, Models = []\<rparr>)))))))))"

definition parseLAYRChunk :: "runtime \<Rightarrow> byte list \<Rightarrow> error + int \<times> Layer" where
  "parseLAYRChunk rt c =
     (let vr = newReader c;
          (ident, vr) = ReadInt32 vr
      in bindE (ReadDict vr) (\<lambda>(attr, vr).
     (let (reserved, vr) = ReadInt32 vr
      in guardE (Error vr) (\<lambda>e. Errorf ''error reading LAYR chunk: %v'' [ArgErr e])
     (if reserved \<noteq> - 1
        then Inl (Errorf ''reserved field in LAYR chunk must be -1, got %d'' [ArgInt reserved])
      else
     (let (name, attr) = dict_ReadString ''_name'' '''' attr;
          (hidden, attr) = ReadBool rt ''_hidden'' False attr
      in guardE (dict_Error attr) (\<lambda>e. Errorf ''error reading LAYR chunk: %v'' [ArgErr e])
        (guardE (AssertNoUnreadFields attr)
           (\<lambda>e. Errorf ''unexpected fields in LAYR chunk attributes: %v'' [ArgErr e])
     (let vr = RequireEOF ''LAYR'' vr
      in guardE (Error vr) (\<lambda>e. e)
           (Inr (ident, \<lparr>Layer_Index = ident, Layer_Name = name, Layer_Hidden = hidden\<rparr>)))))))))"

definition parseMatType :: "string \<Rightarrow> error + MaterialType" where
  "parseMatType s =
     (if s = ''_diffuse'' then Inr MaterialDiffuse
      else if s = ''_metal'' then Inr MaterialMetal
      else if s = ''_glass'' then Inr MaterialGlass
      else if s = ''_emit'' then Inr MaterialEmissive
      else Inl (Errorf ''unknown material %q'' [ArgStr s]))"

definition parseMatlChunk :: "runtime \<Rightarrow> byte list \<Rightarrow> error + int \<times> Material" where
  "parseMatlChunk rt c =
     (let vr = newReader c;
          (matID, vr) = ReadInt32 vr
      in if matID > 255 \<or> matID < 0
           then Inl (Errorf ''material index %d out of range'' [ArgInt matID])
         else bindE (ReadDict vr) (\<lambda>(d, vr).
     (let vr = RequireEOF ''MATL'' vr
      in guardE (Error vr) (\<lambda>e. Errorf ''error reading MATL chunk: %v'' [ArgErr e])
     (let (matTypeS, d) = dict_ReadString ''_type'' ''<missing>'' d;
          (weight, d) = ReadFloat rt ''_weight'' 1 d;
          (rough, d) = ReadFloat rt ''_rough'' 0 d;
          (spec, d) = ReadFloat rt ''_spec'' 0 d;
          (ior, d) = ReadFloat rt ''_ior'' 0 d;
          (att, d) = ReadFloat rt ''_att'' 0 d;
          (flux, d) = ReadFloat rt ''_flux'' 0 d;
          (plastic, d) = ReadBool rt ''_plastic'' False d;
          (ldr, d) = ReadFloat rt ''_ldr'' 0 d
      in guardE (dict_Error d) (\<lambda>e. Errorf ''dict error reading MATL chunk: %v'' [ArgErr e])
        (guardE (AssertNoUnreadFields d) (\<lambda>e. Errorf ''dict error -- unknown field: %v'' [ArgErr e])
        (case parseMatType matTypeS of
           Inl e \<Rightarrow> Inl (Errorf ''error reading MATL chunk: %v'' [ArgErr e])
         | Inr matType \<Rightarrow>
             Inr (matID, \<lparr>Color = (0, 0, 0, 0), Type = matType, Weight = weight * 100,
                    Plastic = plastic, Roughness = rough * 100, Specular = spec * 100,
                    IOR = ior + 1, Attenuation = att * 100, Flux = flux * 100,
                    LDR = ldr * 100\<rparr>)))))))"

subsection \<open>Building the scene\<close>

text \<open>
  \<open>addChild\<close> of a transform node and of a group node, on the node at address \<open>p\<close> of the
  heap; a shape node has no \<open>addChild\<close>, which \<open>buildScene\<close> checks before the call.
\<close>

definition addChild :: "AnyNode \<Rightarrow> int \<Rightarrow> error + AnyNode" where
  "addChild node c =
     (case node of
        Transform t \<Rightarrow>
          (if Child t \<noteq> None
             then Inl (Errorf ''can't add two children nodes to transform node'' [])
           else Inr (Transform (t\<lparr>Child := Some c\<rparr>)))
      | Group g \<Rightarrow> Inr (Group (g\<lparr>Children := Children g @ [c]\<rparr>))
      | Shape s \<Rightarrow> Inl (Panic ''addChild of a shape node''))"

text \<open>
  \<open>nodeCount\<close> follows the pointers of the heap with the map \<open>visited\<close> (the list of the
  addresses marked). The recursion of the source ends because a node is entered at most
  once; here its depth is bounded by the first argument, with \<open>None\<close> when the bound is
  reached. A shape node tests \<open>visited\<close> but does not mark itself.
\<close>

fun nodeCount :: "nat \<Rightarrow> (int \<times> AnyNode) list \<Rightarrow> int list \<Rightarrow> int \<Rightarrow> (error + int \<times> int list) option"
  and nodeCount_loop :: "nat \<Rightarrow> (int \<times> AnyNode) list \<Rightarrow> int list \<Rightarrow> int list \<Rightarrow> int \<Rightarrow> (error + int \<times> int list) option"
where
  "nodeCount 0 h visited p = None"
| "nodeCount (Suc f) h visited p =
     (case map_of h p of
        None \<Rightarrow> Some (Inl (Panic ''nil pointer dereference''))
      | Some (Transform t) \<Rightarrow>
          (if p \<in> set visited then Some (Inl (Errorf ''cycle found'' []))
           else (case Child t of
                   None \<Rightarrow> Some (Inr (1, p # visited))
                 | Some c \<Rightarrow>
                     (case nodeCount f h (p # visited) c of
                        None \<Rightarrow> None
                      | Some (Inl e) \<Rightarrow> Some (Inl e)
                      | Some (Inr (rc, visited')) \<Rightarrow> Some (Inr (1 + rc, visited')))))
      | Some (Group g) \<Rightarrow>
          (if p \<in> set visited then Some (Inl (Errorf ''cycle found'' []))
           else nodeCount_loop f h (p # visited) (Children g) 1)
      | Some (Shape s) \<Rightarrow>
          (if p \<in> set visited then Some (Inl (Errorf ''cycle found'' []))
           else Some (Inr (1, visited))))"
| "nodeCount_loop f h visited [] r = Some (Inr (r, visited))"
| "nodeCount_loop f h visited (c # cs) r =
     (case nodeCount f h visited c of
        None \<Rightarrow> None
      | Some (Inl e) \<Rightarrow> Some (Inl e)
      | Some (Inr (rc, visited')) \<Rightarrow> nodeCount_loop f h visited' cs (r + rc))"

text \<open>The loop of \<open>buildScene\<close> that looks for the root, over the keys of \<open>sceneIDs\<close>.\<close>

primrec findTop :: "(int \<times> AnyNode) list \<Rightarrow> (int \<times> int) list \<Rightarrow> int list \<Rightarrow> int option \<Rightarrow> error + int option" where
  "findTop sceneIDs sceneLayers [] tp = Inr tp"
| "findTop sceneIDs sceneLayers (k # ks) tp =
     (case map_of sceneIDs k of
        Some (Transform tn) \<Rightarrow>
          (if map_of sceneLayers k = Some (- 1)
             then (if tp \<noteq> None then Inl (Errorf ''scene has two root nodes'' [])
                   else findTop sceneIDs sceneLayers ks (Some k))
           else findTop sceneIDs sceneLayers ks tp)
      | _ \<Rightarrow> findTop sceneIDs sceneLayers ks tp)"

text \<open>The inner loop: the children of the node \<open>scid\<close> are attached in their order.\<close>

primrec addChildren :: "int \<Rightarrow> int list \<Rightarrow> (int \<times> AnyNode) list \<Rightarrow> error + (int \<times> AnyNode) list" where
  "addChildren scid [] h = Inr h"
| "addChildren scid (c # cs) h =
     (case map_of h c of
        None \<Rightarrow> Inl (Errorf ''node %d has child %d, but no such node exists'' [ArgInt scid, ArgInt c])
      | Some cn \<Rightarrow>
          (case map_of h scid of
             None \<Rightarrow> Inl (Panic ''nil pointer dereference'')
           | Some node \<Rightarrow>
               bindE (addChild node c) (\<lambda>node'. addChildren scid cs (AList.update scid node' h))))"

text \<open>The outer loop, over the keys of \<open>sceneChildrenIDs\<close>.\<close>

primrec linkChildren :: "(int \<times> int list) list \<Rightarrow> int list \<Rightarrow> (int \<times> AnyNode) list \<Rightarrow> error + (int \<times> AnyNode) list" where
  "linkChildren sceneChildrenIDs [] h = Inr h"
| "linkChildren sceneChildrenIDs (scid # ks) h =
     (case map_of h scid of
        None \<Rightarrow> Inl (Errorf ''node %d has children, but doesn't exist in the scene graph'' [ArgInt scid])
      | Some node \<Rightarrow>
          (case node of
             Shape s \<Rightarrow> Inl (Errorf ''node %d has type %T, which we can't add children to''
                                [ArgInt scid, ArgStr ''*vox.ShapeNode''])
           | _ \<Rightarrow>
               (case map_of sceneChildrenIDs scid of
                  None \<Rightarrow> linkChildren sceneChildrenIDs ks h
                | Some children \<Rightarrow>
                    bindE (addChildren scid children h)
                      (\<lambda>h'. linkChildren sceneChildrenIDs ks h'))))"

definition buildScene :: "runtime \<Rightarrow> (int \<times> AnyNode) list \<Rightarrow> (int \<times> int list) list
    \<Rightarrow> (int \<times> int) list \<Rightarrow> (int \<times> Layer) list \<Rightarrow> error + Scene" where
  "buildScene rt sceneIDs sceneChildrenIDs sceneLayers layerIDs =
     (let layers = sort_key Layer_Index (map snd layerIDs)
      in bindE (findTop sceneIDs sceneLayers (rangeOrder rt (map fst sceneIDs)) None) (\<lambda>tp.
     (case tp of
        None \<Rightarrow> Inl (Errorf ''failed to find root node in the scene graph'' [])
      | Some topN \<Rightarrow>
          bindE (linkChildren sceneChildrenIDs (rangeOrder rt (map fst sceneChildrenIDs)) sceneIDs) (\<lambda>h.
          (case nodeCount (Suc (length h)) h [] topN of
             None \<Rightarrow> Inl (Panic ''stack overflow'')
           | Some (Inl e) \<Rightarrow> Inl e
           | Some (Inr (nc, _)) \<Rightarrow>
               if nc \<noteq> int (length sceneIDs)
                 then Inl (Errorf ''not all nodes are in scene. %d nodes, but only %d in scene''
                            [ArgInt (int (length sceneIDs)), ArgInt nc])
               else Inr \<lparr>Layers = layers, Scene_Node = Some topN, Scene_heap = h\<rparr>)))))"

subsection \<open>The chunks of MAIN\<close>

datatype state = statePack | stateSize | stateXYZI | stateRGBA | stateSceneGraph | stateLAYR | stateMatt

text \<open>
  The local variables of \<open>parseMainChunks\<close>. The maps are association lists with one entry
  per key, in the order of insertion; \<open>ps_log\<close> holds the lines written by \<open>log.Printf\<close>.
\<close>

record pstate =
  ps_state :: state
  ps_pack :: int
  ps_models :: "Model list"
  ps_rgba :: "RGBA list"
  ps_mats :: "Material list"
  ps_size :: "int \<times> int \<times> int"
  ps_sceneIDs :: "(int \<times> AnyNode) list"
  ps_sceneChildren :: "(int \<times> int list) list"
  ps_sceneLayer :: "(int \<times> int) list"
  ps_layerIDs :: "(int \<times> Layer) list"
  ps_ignoredChunks :: "string list"
  ps_log :: "string list"

definition pstate_init :: pstate where
  "pstate_init =
     \<lparr>ps_state = statePack, ps_pack = - 1, ps_models = [], ps_rgba = [], ps_mats = [],
      ps_size = (0, 0, 0), ps_sceneIDs = [], ps_sceneChildren = [], ps_sceneLayer = [],
      ps_layerIDs = [], ps_ignoredChunks = [''rOBJ''], ps_log = []\<rparr>"

text \<open>The end of the input: the branch \<open>err == io.EOF\<close> of the loop.\<close>

definition finish :: "runtime \<Rightarrow> pstate \<Rightarrow> error + Main" where
  "finish rt st =
     (if ps_pack st \<noteq> - 1 \<and> int (length (ps_models st)) \<noteq> ps_pack st
        then Inl (Errorf ''expected %d models, but got %d''
                   [ArgInt (ps_pack st), ArgInt (int (length (ps_models st)))])
      else (case buildScene rt (ps_sceneIDs st) (ps_sceneChildren st) (ps_sceneLayer st) (ps_layerIDs st) of
              Inl e \<Rightarrow> Inl (Errorf ''error building scene graph: %v'' [ArgErr e])
            | Inr scene \<Rightarrow> buildMain (ps_models st) (ps_rgba st) (ps_mats st) scene))"

text \<open>
  The \<open>switch\<close> on the chunk's ID. The result is the new state with a flag that is \<open>True\<close>
  when the case ends in \<open>continue\<close>, which only the \<open>default\<close> case does.
\<close>

definition addModels :: "Model list \<Rightarrow> ShapeNode \<Rightarrow> int list \<Rightarrow> error + ShapeNode" where
  "addModels models node modelIDs =
     fold (\<lambda>modelID acc.
             bindE acc (\<lambda>node.
               if modelID < 0 \<or> modelID \<ge> int (length models)
                 then Inl (Errorf ''nSHP node refers to missing model ID %d'' [ArgInt modelID])
               else Inr (node\<lparr>Models := Models node @ [nat modelID]\<rparr>)))
          modelIDs (Inr node)"

definition switch_chunk :: "runtime \<Rightarrow> pstate \<Rightarrow> string \<Rightarrow> byte list \<Rightarrow> error + pstate \<times> bool" where
  "switch_chunk rt st ident c =
     (if ident = ''PACK'' then
        (if ps_state st \<noteq> statePack then Inl (Errorf ''PACK chunk must appear first in MAIN'' [])
         else (case parsePackChunk c of
                 (pack, err) \<Rightarrow>
                   guardE err (\<lambda>e. e) (Inr (st\<lparr>ps_pack := pack, ps_state := stateSize\<rparr>, False))))
      else if ident = ''SIZE'' then
        (let st = (if ps_state st = statePack then st\<lparr>ps_state := stateSize\<rparr> else st)
         in if ps_state st \<noteq> stateSize then Inl (Errorf ''misplaced SIZE chunk'' [])
            else (case parseSizeChunk c of
                    (sz, err) \<Rightarrow>
                      guardE err (\<lambda>e. e) (Inr (st\<lparr>ps_size := sz, ps_state := stateXYZI\<rparr>, False))))
      else if ident = ''XYZI'' then
        (if ps_state st \<noteq> stateXYZI then Inl (Errorf ''misplaced XYZI chunk'' [])
         else (case parseXYZIChunk c of
                 (vs, err) \<Rightarrow>
                   guardE err (\<lambda>e. e)
                     (let models = ps_models st @
                            [\<lparr>Model_X = fst (ps_size st), Model_Y = fst (snd (ps_size st)),
                              Model_Z = snd (snd (ps_size st)), Model_V = vs\<rparr>]
                      in Inr (st\<lparr>ps_models := models,
                                 ps_state := (if ps_pack st \<noteq> - 1 \<and> int (length models) = ps_pack st
                                              then stateSceneGraph else stateSize)\<rparr>, False))))
      else if ident = ''nTRN'' then
        bindE (if ps_state st = stateSize
                 then (if ps_pack st \<noteq> - 1
                         then Inl (Errorf ''missing models: expected %d but found %d''
                                    [ArgInt (ps_pack st), ArgInt (int (length (ps_models st)))])
                       else Inr (st\<lparr>ps_state := stateSceneGraph\<rparr>))
               else Inr st) (\<lambda>st.
        if ps_state st \<noteq> stateSceneGraph then Inl (Errorf ''misplaced nTRN chunk'' [])
        else bindE (parsenTRNChunk rt c) (\<lambda>(nid, childID, layerID, node).
          if map_of (ps_sceneIDs st) nid \<noteq> None then Inl (Errorf ''node %d appears twice'' [ArgInt nid])
          else Inr (st\<lparr>ps_sceneIDs := AList.update nid (Transform node) (ps_sceneIDs st),
                       ps_sceneChildren := AList.update nid [childID] (ps_sceneChildren st),
                       ps_sceneLayer := AList.update nid layerID (ps_sceneLayer st)\<rparr>, False)))
      else if ident = ''nGRP'' then
        (if ps_state st \<noteq> stateSceneGraph then Inl (Errorf ''misplaced nGRP chunk'' [])
         else bindE (parsenGRPChunk rt c) (\<lambda>(nid, childIDs, node).
           if map_of (ps_sceneIDs st) nid \<noteq> None then Inl (Errorf ''node %d appears twice'' [ArgInt nid])
           else Inr (st\<lparr>ps_sceneIDs := AList.update nid (Group node) (ps_sceneIDs st),
                        ps_sceneChildren := AList.update nid childIDs (ps_sceneChildren st)\<rparr>, False)))
      else if ident = ''nSHP'' then
        (if ps_state st \<noteq> stateSceneGraph then Inl (Errorf ''misplaced nSHP chunk'' [])
         else bindE (parsenSHPChunk rt c) (\<lambda>(nid, modelIDs, node).
           if map_of (ps_sceneIDs st) nid \<noteq> None then Inl (Errorf ''node %d appears twice'' [ArgInt nid])
           else bindE (addModels (ps_models st) node modelIDs) (\<lambda>node.
             Inr (st\<lparr>ps_sceneIDs := AList.update nid (Shape node) (ps_sceneIDs st)\<rparr>, False))))
      else if ident = ''LAYR'' then
        (let st = (if ps_state st = stateSceneGraph then st\<lparr>ps_state := stateLAYR\<rparr> else st)
         in if ps_state st \<noteq> stateLAYR then Inl (Errorf ''misplaced LAYR chunk'' [])
            else bindE (parseLAYRChunk rt c) (\<lambda>(lid, layer).
              if map_of (ps_layerIDs st) lid \<noteq> None
                then Inl (Errorf ''two LAYR chunks have id %d'' [ArgInt lid])
              else Inr (st\<lparr>ps_layerIDs := AList.update lid layer (ps_layerIDs st)\<rparr>, False)))
      else if ident = ''RGBA'' then
        (let st = (if ps_state st = stateLAYR then st\<lparr>ps_state := stateRGBA\<rparr> else st)
         in if ps_state st \<noteq> stateRGBA then Inl (Errorf ''misplaced RGBA chunk'' [])
            else (case parseRGBAChunk c of
                    (rgba, err) \<Rightarrow> Inr (st\<lparr>ps_rgba := rgba, ps_state := stateMatt\<rparr>, False)))
      else if ident = ''MATL'' then
        (if ps_state st \<noteq> stateMatt then Inl (Errorf ''misplaced MATL chunk'' [])
         else bindE (parseMatlChunk rt c) (\<lambda>(idx, mat).
           let mats = ps_mats st @ replicate (nat idx + 1 - length (ps_mats st)) Material_zero
           in Inr (st\<lparr>ps_mats := mats[nat idx := mat]\<rparr>, False)))
      else
        (if ident \<notin> set (ps_ignoredChunks st)
           then Inr (st\<lparr>ps_log := ps_log st @ [''unexpected chunk '' @ ident],
                        ps_ignoredChunks := ident # ps_ignoredChunks st\<rparr>, True)
         else Inr (st, True)))"

text \<open>One turn of the loop after a chunk was read: the switch, then the test of \<open>len(cc)\<close>.\<close>

definition loop_body :: "runtime \<Rightarrow> pstate \<Rightarrow> string \<Rightarrow> byte list \<Rightarrow> byte list \<Rightarrow> error + pstate" where
  "loop_body rt st ident c cc =
     bindE (switch_chunk rt st ident c) (\<lambda>(st', continue).
       if continue then Inr st'
       else if length cc \<noteq> 0
         then Inl (Errorf ''unexpected child chunks of chunk %q'' [ArgStr ident])
       else Inr st')"

text \<open>
  The loop of \<open>parseMainChunks\<close>. A chunk that was read took at least its 12 header bytes
  from the input, so the loop ends. The result comes with the lines that were logged.
\<close>

function parseMainChunks_loop :: "runtime \<Rightarrow> pstate \<Rightarrow> voxReader \<Rightarrow> (error + Main) \<times> string list" where
  "parseMainChunks_loop rt st vr =
     (case parseChunk vr of
        Inl err \<Rightarrow> if err = EOF then (finish rt st, ps_log st) else (Inl err, ps_log st)
      | Inr (ident, c, cc, vr') \<Rightarrow>
          (case loop_body rt st ident c cc of
             Inl err \<Rightarrow> (Inl err, ps_log st)
           | Inr st' \<Rightarrow> parseMainChunks_loop rt st' vr'))"
  by pat_completeness auto
termination
proof (relation "measure (\<lambda>(rt, st, vr). length (vr_r vr))")
  show "wf (measure (\<lambda>(rt, st, vr). length (vr_r vr)))" by simp
next
  fix rt :: runtime and st :: pstate and vr :: voxReader
    and x2 ident y c ya cc vr' st'
  assume "parseChunk vr = Inr x2" "(ident, y) = x2" "(c, ya) = y" "(cc, vr') = ya"
  then have pc: "parseChunk vr = Inr (ident, c, cc, vr')" by simp
  have shrink: "length (vr_r b) \<le> length (vr_r a)" if "ReadBytesN n a = (bs, b)" for n a bs b
    using that by (auto simp: ReadBytesN_def ReadFull_def split: if_splits)
  have strict: "length (vr_r b) < length (vr_r a)"
    if "ReadBytesN 4 a = (bs, b)" "vr_err b = None" for a bs b
    using that by (auto simp: ReadBytesN_def ReadFull_def split: if_splits)
  obtain i1 v1 where r1: "ReadBytesN 4 vr = (i1, v1)" by (cases "ReadBytesN 4 vr")
  obtain b2 v2 where r2: "ReadBytesN 4 v1 = (b2, v2)" by (cases "ReadBytesN 4 v1")
  obtain b3 v3 where r3: "ReadBytesN 4 v2 = (b3, v3)" by (cases "ReadBytesN 4 v2")
  have e3: "vr_err v3 = None"
    using pc r1 r2 r3
    by (auto simp: parseChunk_def ReadInt32_def Error_def Let_def split: option.splits)
  have l3: "length (vr_r v3) < length (vr_r v2)" using strict[OF r3 e3] .
  have l2: "length (vr_r v2) \<le> length (vr_r v1)" using shrink[OF r2] .
  have l1: "length (vr_r v1) \<le> length (vr_r vr)" using shrink[OF r1] .
  have "length (vr_r vr') \<le> length (vr_r v3)"
    using pc r1 r2 r3 e3
    by (auto simp: parseChunk_def ReadInt32_def ReadBytes_def Error_def Let_def
             split: option.splits if_splits prod.splits dest!: shrink)
  with l1 l2 l3 have "length (vr_r vr') < length (vr_r vr)" by linarith
  then show "((rt, st', vr'), (rt, st, vr)) \<in> measure (\<lambda>(rt, st, vr). length (vr_r vr))"
    by simp
qed

declare parseMainChunks_loop.simps [simp del]

definition parseMainChunks :: "runtime \<Rightarrow> voxReader \<Rightarrow> (error + Main) \<times> string list" where
  "parseMainChunks rt vr = parseMainChunks_loop rt pstate_init vr"

text \<open>
  \<open>parseMainChunk\<close> calls \<open>vr.RequireEOF("MAIN")\<close> on the outer reader and does not look
  at the reader again, so the call has no effect on the result.
\<close>

definition parseMainChunk :: "runtime \<Rightarrow> voxReader \<Rightarrow> (error + Main) \<times> string list" where
  "parseMainChunk rt vr =
     (case parseChunk vr of
        Inl err \<Rightarrow> (Inl err, [])
      | Inr (ident, contents, childContents, vr') \<Rightarrow>
          if ident \<noteq> ''MAIN'' then (Inl (Errorf ''missing MAIN chunk'' []), [])
          else if length contents \<noteq> 0 then (Inl (Errorf ''unexpected MAIN contents'' []), [])
          else (let vr'' = RequireEOF ''MAIN'' vr'
                in parseMainChunks rt (newReader childContents)))"

definition Parse :: "runtime \<Rightarrow> byte list \<Rightarrow> (error + Main) \<times> string list" where
  "Parse rt input =
     (let vr = newReader input;
          (ident, vr) = ReadBytesN 4 vr;
          (ver, vr) = ReadInt32 vr
      in case Error vr of
           Some err \<Rightarrow> (Inl (Errorf ''failed reading header: %v'' [ArgErr err]), [])
         | None \<Rightarrow>
             if ident \<noteq> bytes_of_string ''VOX '' then (Inl (Errorf ''not a magicavox file'' []), [])
             else if ver \<noteq> version
               then (Inl (Errorf ''vox file must be version %d, got %d'' [ArgInt version, ArgInt ver]), [])
             else parseMainChunk rt vr)"

section \<open>The byte format, written out\<close>

text \<open>
  The repository has no writer. To state what \<open>Parse\<close> does on a given file, the format of
  the spec (all integers little-endian 32-bit; a chunk is its tag, the two lengths, the
  content and the children; a STRING is its length and its bytes; a DICT is a count and
  that many pairs of STRINGs) is written out here as functions that build the bytes.
\<close>

definition le32 :: "int \<Rightarrow> byte list" where
  "le32 x = [word_of_int x, word_of_int (x div 256), word_of_int (x div 65536),
             word_of_int (x div 16777216)]"

definition enc_chunk :: "string \<Rightarrow> byte list \<Rightarrow> byte list \<Rightarrow> byte list" where
  "enc_chunk tag c cc =
     bytes_of_string tag @ le32 (int (length c)) @ le32 (int (length cc)) @ c @ cc"

definition enc_string :: "string \<Rightarrow> byte list" where
  "enc_string s = le32 (int (length s)) @ bytes_of_string s"

definition enc_dict :: "(string \<times> string) list \<Rightarrow> byte list" where
  "enc_dict kvs =
     le32 (int (length kvs)) @ concat (map (\<lambda>(k, v). enc_string k @ enc_string v) kvs)"

definition enc_voxels :: "Voxel list \<Rightarrow> byte list" where
  "enc_voxels vs = concat (map (\<lambda>v. [Voxel_X v, Voxel_Y v, Voxel_Z v, ColorIndex v]) vs)"

definition enc_palette :: "RGBA list \<Rightarrow> byte list" where
  "enc_palette pal = concat (map (\<lambda>(r, g, b, a). [r, g, b, a]) pal)"

text \<open>The chunks of the files below; the dictionaries of the nodes and layers are empty.\<close>

definition chunk_PACK :: "int \<Rightarrow> byte list" where
  "chunk_PACK n = enc_chunk ''PACK'' (le32 n) []"

definition chunk_SIZE :: "int \<Rightarrow> int \<Rightarrow> int \<Rightarrow> byte list" where
  "chunk_SIZE x y z = enc_chunk ''SIZE'' (le32 x @ le32 y @ le32 z) []"

definition chunk_XYZI :: "Voxel list \<Rightarrow> byte list" where
  "chunk_XYZI vs = enc_chunk ''XYZI'' (le32 (int (length vs)) @ enc_voxels vs) []"

definition chunk_nTRN :: "int \<Rightarrow> int \<Rightarrow> int \<Rightarrow> byte list" where
  "chunk_nTRN nid child layer =
     enc_chunk ''nTRN'' (le32 nid @ enc_dict [] @ le32 child @ le32 (- 1) @ le32 layer
                         @ le32 1 @ enc_dict []) []"

definition chunk_nGRP :: "int \<Rightarrow> int list \<Rightarrow> byte list" where
  "chunk_nGRP nid children =
     enc_chunk ''nGRP'' (le32 nid @ enc_dict [] @ le32 (int (length children))
                         @ concat (map le32 children)) []"

definition chunk_nSHP :: "int \<Rightarrow> int \<Rightarrow> byte list" where
  "chunk_nSHP nid model =
     enc_chunk ''nSHP'' (le32 nid @ enc_dict [] @ le32 1 @ le32 model @ enc_dict []) []"

definition chunk_LAYR :: "int \<Rightarrow> byte list" where
  "chunk_LAYR lid = enc_chunk ''LAYR'' (le32 lid @ enc_dict [] @ le32 (- 1)) []"

definition chunk_RGBA :: "RGBA list \<Rightarrow> byte list" where
  "chunk_RGBA pal = enc_chunk ''RGBA'' (enc_palette pal) []"

definition chunk_MATL :: "int \<Rightarrow> string \<Rightarrow> byte list" where
  "chunk_MATL mid ty = enc_chunk ''MATL'' (le32 mid @ enc_dict [(''_type'', ty)]) []"

definition vox_file :: "byte list \<Rightarrow> byte list" where
  "vox_file children = bytes_of_string ''VOX '' @ le32 150 @ enc_chunk ''MAIN'' [] children"

text \<open>A runtime for closed statements: no string decodes, maps are ranged over in order.\<close>

definition rt0 :: runtime where
  "rt0 = \<lparr>ParseFloat = (\<lambda>_. None), DecodeMatrix3x3 = (\<lambda>_. None),
          Decode3xInt32 = (\<lambda>_. None), rangeOrder = (\<lambda>ks. ks)\<rparr>"

text \<open>
  \<open>int32 x\<close>: \<open>x\<close> is a value of an \<open>int32\<close>. \<open>rd bs\<close> is a reader on the input \<open>bs\<close> with no
  error latched. \<open>node0\<close> is the transform node that \<open>parsenTRNChunk\<close> returns for empty
  dictionaries, \<open>mat0 ty\<close> the material that \<open>parseMatlChunk\<close> returns for a dictionary
  that holds only \<open>_type\<close>.
\<close>

definition int32 :: "int \<Rightarrow> bool" where
  "int32 x = (- 2147483648 \<le> x \<and> x < 2147483648)"

definition rd :: "byte list \<Rightarrow> voxReader" where
  "rd bs = \<lparr>vr_r = bs, vr_err = None\<rparr>"

definition node0 :: TransformNode where
  "node0 = \<lparr>Name = [], Hidden = False, Layer_ref = None,
            Transforms = [\<lparr>frame_R = Matrix3x3Identity, frame_T = (0, 0, 0)\<rparr>], Child = None\<rparr>"

definition mat0 :: "MaterialType \<Rightarrow> Material" where
  "mat0 ty = \<lparr>Color = (0, 0, 0, 0), Type = ty, Weight = 100, Plastic = False,
     Roughness = 0, Specular = 0, IOR = 1, Attenuation = 0, Flux = 0, LDR = 0\<rparr>"

section \<open>Dense worlds\<close>


















subsection \<open>The layout of a materialized model\<close>











section \<open>The files and scenes of the statements\<close>

text \<open>
  The runtime ranges over every key of a map once, in some order.
\<close>

definition ranges_each_key_once :: "runtime \<Rightarrow> bool" where
  "ranges_each_key_once rt =
     (\<forall>ks. distinct ks \<longrightarrow> distinct (rangeOrder rt ks) \<and> set (rangeOrder rt ks) = set ks)"

text \<open>
  The tags that the \<open>switch\<close> of \<open>parseMainChunks\<close> knows, and what its \<open>default\<close> case does
  to the state for any other tag.
\<close>

definition recognized :: "string \<Rightarrow> bool" where
  "recognized ident = (ident \<in> set [''PACK'', ''SIZE'', ''XYZI'', ''nTRN'', ''nGRP'', ''nSHP'',
                                    ''LAYR'', ''RGBA'', ''MATL''])"

definition skip_unknown :: "pstate \<Rightarrow> string \<Rightarrow> pstate" where
  "skip_unknown st ident =
     (if ident \<in> set (ps_ignoredChunks st) then st
      else st\<lparr>ps_log := ps_log st @ [''unexpected chunk '' @ ident],
              ps_ignoredChunks := ident # ps_ignoredChunks st\<rparr>)"

text \<open>
  A palette and a voxel list for closed statements, and the node and layer records that
  the decoders return for the chunks of the files below.
\<close>

definition pal0 :: "RGBA list" where
  "pal0 = replicate 256 (1, 2, 3, 255)"

definition vs0 :: "Voxel list" where
  "vs0 = [\<lparr>Voxel_X = 0, Voxel_Y = 0, Voxel_Z = 0, ColorIndex = 1\<rparr>]"

definition shape0 :: ShapeNode where
  "shape0 = \<lparr>Name = [], Hidden = False, Models = [0]\<rparr>"

definition group0 :: "int list \<Rightarrow> GroupNode" where
  "group0 cs = \<lparr>Name = [], Hidden = False, Children = cs\<rparr>"

definition layer0 :: Layer where
  "layer0 = \<lparr>Layer_Index = 0, Layer_Name = [], Layer_Hidden = False\<rparr>"

text \<open>
  The minimal file: PACK=1, SIZE, XYZI, RGBA and the scene nTRN (layer -1) to nSHP, with
  no LAYR and no MATL chunk; with the palette before the scene and after it.
\<close>

definition minimal_children :: "Voxel list \<Rightarrow> RGBA list \<Rightarrow> byte list" where
  "minimal_children vs pal =
     chunk_PACK 1 @ chunk_SIZE 30 20 10 @ chunk_XYZI vs
     @ chunk_RGBA pal @ chunk_nTRN 0 1 (- 1) @ chunk_nSHP 1 0"

definition minimal_children_scene_first :: "Voxel list \<Rightarrow> RGBA list \<Rightarrow> byte list" where
  "minimal_children_scene_first vs pal =
     chunk_PACK 1 @ chunk_SIZE 30 20 10 @ chunk_XYZI vs
     @ chunk_nTRN 0 1 (- 1) @ chunk_nSHP 1 0 @ chunk_RGBA pal"

text \<open>The same file with one LAYR chunk before the palette and a MATL chunk for material 255.\<close>

definition layered_children :: "Voxel list \<Rightarrow> RGBA list \<Rightarrow> byte list" where
  "layered_children vs pal =
     chunk_PACK 1 @ chunk_SIZE 30 20 10 @ chunk_XYZI vs
     @ chunk_nTRN 0 1 (- 1) @ chunk_nSHP 1 0 @ chunk_LAYR 0 @ chunk_RGBA pal
     @ chunk_MATL 255 ''_diffuse''"

text \<open>That file followed by a chunk of an unknown tag that has one byte of children.\<close>

definition unknown_with_children :: "byte list" where
  "unknown_with_children = layered_children vs0 pal0 @ enc_chunk ''XXXX'' [] [0]"

text \<open>That file with an RGBA chunk whose content is empty.\<close>

definition empty_palette_children :: "byte list" where
  "empty_palette_children =
     chunk_PACK 1 @ chunk_SIZE 30 20 10 @ chunk_XYZI vs0
     @ chunk_nTRN 0 1 (- 1) @ chunk_nSHP 1 0 @ chunk_LAYR 0 @ enc_chunk ''RGBA'' [] []
     @ chunk_MATL 255 ''_diffuse''"

text \<open>
  A scene in which the group 1 names the shape 2 twice and the shape 3 hangs nowhere, and
  the heap that \<open>buildScene\<close> builds for it.
\<close>

definition shared_shape_children :: "byte list" where
  "shared_shape_children =
     chunk_PACK 1 @ chunk_SIZE 30 20 10 @ chunk_XYZI vs0
     @ chunk_nTRN 0 1 (- 1) @ chunk_nGRP 1 [2, 2] @ chunk_nSHP 2 0 @ chunk_nSHP 3 0
     @ chunk_LAYR 0 @ chunk_RGBA pal0 @ chunk_MATL 255 ''_diffuse''"

definition shared_shape_heap :: "(int \<times> AnyNode) list" where
  "shared_shape_heap =
     [(0, Transform (node0\<lparr>Child := Some 1\<rparr>)), (1, Group (group0 [2, 2])),
      (2, Shape shape0), (3, Shape shape0)]"

text \<open>
  A scene with a second transform node, number 2, whose nTRN chunk names layer 0, a LAYR
  chunk for layer 0, and the heap that \<open>buildScene\<close> builds for it.
\<close>

definition layer_zero_children :: "byte list" where
  "layer_zero_children =
     chunk_PACK 1 @ chunk_SIZE 30 20 10 @ chunk_XYZI vs0
     @ chunk_nTRN 0 1 (- 1) @ chunk_nGRP 1 [2] @ chunk_nTRN 2 3 0 @ chunk_nSHP 3 0
     @ chunk_LAYR 0 @ chunk_RGBA pal0 @ chunk_MATL 255 ''_diffuse''"

definition layer_zero_heap :: "(int \<times> AnyNode) list" where
  "layer_zero_heap =
     [(0, Transform (node0\<lparr>Child := Some 1\<rparr>)), (1, Group (group0 [2])),
      (2, Transform (node0\<lparr>Child := Some 3\<rparr>)), (3, Shape shape0)]"



section \<open>Properties of the encoded rotations\<close>

lemma Get_pos: "Get m i j = (if j = pos m i then sgn3 m i else 0)"
  by (simp add: Get_def pos_def sgn3_def eqm3_def)

lemma unat_and3: "unat ((w::8 word) AND 3) = unat w mod 4"
proof -
  have "w AND 3 = take_bit 2 w" by (simp add: take_bit_eq_mask mask_eq_exp_minus_1)
  then show ?thesis by (simp add: take_bit_eq_mod unat_mod_distrib)
qed

lemma unat_and1: "unat ((w::8 word) AND 1) = unat w mod 2"
proof -
  have "w AND 1 = take_bit 1 w" by (simp add: take_bit_eq_mask mask_eq_exp_minus_1)
  then show ?thesis by (simp add: take_bit_eq_mod unat_mod_distrib)
qed

lemma unat_drop2: "unat (drop_bit 2 (w::8 word)) = unat w div 4"
  and unat_drop4: "unat (drop_bit 4 (w::8 word)) = unat w div 16"
  and unat_drop5: "unat (drop_bit 5 (w::8 word)) = unat w div 32"
  and unat_drop6: "unat (drop_bit 6 (w::8 word)) = unat w div 64"
  by (simp_all add: drop_bit_eq_div unat_div_distrib)

lemma unat_lt_256: "unat (w::8 word) < 256"
  using unsigned_less[of w, where 'a=nat] by simp

lemma and128: "((w::8 word) AND 128 = 0) = (unat w < 128)"
proof -
  have "(w AND 128 = 0) = (\<not> bit w 7)"
    using and_exp_eq_0_iff_not_bit[of w 7] by simp
  also have "bit w 7 = bit (unat w) 7" by (simp add: bit_unsigned_iff)
  also have "\<dots> = odd (unat w div 128)" by (simp add: bit_iff_odd)
  also have "(\<not> odd (unat w div 128)) = (unat w < 128)"
  proof -
    have "unat w div 128 = 0 \<or> unat w div 128 = 1" using unat_lt_256[of w] by arith
    then show ?thesis by auto
  qed
  finally show ?thesis .
qed

lemma pos0: "pos m 0 = int (unat m mod 4)"
  unfolding pos_def uint_nat unat_and3 by simp

lemma pos1: "pos m 1 = int (unat m div 4 mod 4)"
  unfolding pos_def uint_nat unat_and3 unat_drop2 by simp

lemma Valid_iff:
  "Valid m = (unat m < 128 \<and> pos m 0 \<noteq> pos m 1 \<and> pos m 0 \<noteq> 3 \<and> pos m 1 \<noteq> 3)"
proof -
  have a: "(m AND 3 \<noteq> drop_bit 2 m AND 3) = (pos m 0 \<noteq> pos m 1)"
    by (simp add: pos0 pos1 word_unat_eq_iff unat_and3 unat_drop2)
  have b: "(m AND 3 \<noteq> 3) = (pos m 0 \<noteq> 3)"
    by (simp add: pos0 word_unat_eq_iff unat_and3)
  have c: "(drop_bit 2 m AND 3 \<noteq> 3) = (pos m 1 \<noteq> 3)"
    by (simp add: pos1 word_unat_eq_iff unat_and3 unat_drop2)
  show ?thesis
    unfolding Valid_def Let_def and128 a b c ..
qed

lemma pos01_range: "0 \<le> pos m 0 \<and> pos m 0 \<le> 3 \<and> 0 \<le> pos m 1 \<and> pos m 1 \<le> 3"
proof -
  have "unat m mod 4 < 4" "unat m div 4 mod 4 < 4" by simp_all
  then show ?thesis unfolding pos0 pos1 by linarith
qed

lemma pos2: "pos m 2 = (if pos m 1 \<le> 3 - pos m 0 then 3 - pos m 0 - pos m 1 else 259 - pos m 0 - pos m 1)"
proof -
  have u0: "uint (m AND 3) = pos m 0" and u1: "uint (drop_bit 2 m AND 3) = pos m 1"
    by (simp_all add: pos_def)
  have a: "uint (3 - (m AND 3)) = 3 - pos m 0"
    using pos01_range[of m] by (simp add: uint_sub_if' u0)
  have "pos m 2 = uint (3 - (m AND 3) - (drop_bit 2 m AND 3))"
    by (simp add: pos_def)
  also have "\<dots> = (if uint (drop_bit 2 m AND 3) \<le> uint (3 - (m AND 3))
                      then uint (3 - (m AND 3)) - uint (drop_bit 2 m AND 3)
                      else uint (3 - (m AND 3)) - uint (drop_bit 2 m AND 3) + 2 ^ LENGTH(8))"
    by (rule uint_sub_if')
  also have "\<dots> = (if pos m 1 \<le> 3 - pos m 0 then 3 - pos m 0 - pos m 1 else 259 - pos m 0 - pos m 1)"
    unfolding a u1 by simp
  finally show ?thesis .
qed

lemma Valid_perm:
  assumes "Valid m"
  shows "(pos m 0 = 0 \<and> pos m 1 = 1 \<and> pos m 2 = 2) \<or> (pos m 0 = 0 \<and> pos m 1 = 2 \<and> pos m 2 = 1)
       \<or> (pos m 0 = 1 \<and> pos m 1 = 0 \<and> pos m 2 = 2) \<or> (pos m 0 = 1 \<and> pos m 1 = 2 \<and> pos m 2 = 0)
       \<or> (pos m 0 = 2 \<and> pos m 1 = 0 \<and> pos m 2 = 1) \<or> (pos m 0 = 2 \<and> pos m 1 = 1 \<and> pos m 2 = 0)"
proof -
  define p0 where "p0 = pos m 0"
  define p1 where "p1 = pos m 1"
  define p2 where "p2 = pos m 2"
  have v: "p0 \<noteq> p1" "p0 \<noteq> 3" "p1 \<noteq> 3"
    using assms by (simp_all add: Valid_iff p0_def p1_def)
  have r: "0 \<le> p0" "p0 \<le> 3" "0 \<le> p1" "p1 \<le> 3"
    using pos01_range[of m] by (simp_all add: p0_def p1_def)
  have le: "p1 \<le> 3 - p0" using v r by linarith
  have "p2 = (if p1 \<le> 3 - p0 then 3 - p0 - p1 else 259 - p0 - p1)"
    unfolding p0_def p1_def p2_def by (rule pos2)
  with le have p2: "p2 = 3 - p0 - p1" by simp
  have "(p0 = 0 \<and> p1 = 1 \<and> p2 = 2) \<or> (p0 = 0 \<and> p1 = 2 \<and> p2 = 1)
       \<or> (p0 = 1 \<and> p1 = 0 \<and> p2 = 2) \<or> (p0 = 1 \<and> p1 = 2 \<and> p2 = 0)
       \<or> (p0 = 2 \<and> p1 = 0 \<and> p2 = 1) \<or> (p0 = 2 \<and> p1 = 1 \<and> p2 = 0)"
  proof -
    have c0: "p0 = 0 \<or> p0 = 1 \<or> p0 = 2" using v(2) r(1,2) by presburger
    have c1: "p1 = 0 \<or> p1 = 1 \<or> p1 = 2" using v(3) r(3,4) by presburger
    show ?thesis using c0 c1 v(1) by (elim disjE) (simp_all add: p2)
  qed
  then show ?thesis unfolding p0_def p1_def p2_def .
qed

lemma sgn3_cases: "sgn3 m i = 1 \<or> sgn3 m i = - 1"
  by (simp add: sgn3_def signm3_def)

lemma sgn3_neq0 [simp]: "sgn3 m i \<noteq> 0"
  using sgn3_cases[of m i] by auto

lemma sgn3_mult_neg: "(sgn3 a i * sgn3 b j < 0) = (sgn3 a i \<noteq> sgn3 b j)"
  using sgn3_cases[of a i] sgn3_cases[of b j] by auto

lemma Mul_enc:
  assumes "Valid a" "Valid b"
  shows "Mul a b = enc (pos b (pos a 0)) (pos b (pos a 1))
                      (sgn3 a 0 * sgn3 b (pos a 0)) (sgn3 a 1 * sgn3 b (pos a 1)) (sgn3 a 2 * sgn3 b (pos a 2))"
  using Valid_perm[OF assms(1)] Valid_perm[OF assms(2)]
  by (elim disjE conjE) (simp_all add: Mul_def Mul_body_def Get_pos enc_def Let_def ac_simps)

lemma enc_dec:
  assumes "k0 = 0 \<or> k0 = 1 \<or> k0 = 2" "k1 = 0 \<or> k1 = 1 \<or> k1 = 2"
  shows "pos (enc k0 k1 x0 x1 x2) 0 = k0"
    and "pos (enc k0 k1 x0 x1 x2) 1 = k1"
    and "sgn3 (enc k0 k1 x0 x1 x2) 0 = (if x0 < 0 then - 1 else 1)"
    and "sgn3 (enc k0 k1 x0 x1 x2) 1 = (if x1 < 0 then - 1 else 1)"
    and "sgn3 (enc k0 k1 x0 x1 x2) 2 = (if x2 < 0 then - 1 else 1)"
    and "unat (enc k0 k1 x0 x1 x2) < 128"
  using assms
  by (elim disjE; cases "x0 < 0"; cases "x1 < 0"; cases "x2 < 0";
      simp add: enc_def pos_def sgn3_def signm3_def)+

lemma sgn3_unat:
  "sgn3 m 0 = (if unat m div 16 mod 2 = 0 then 1 else - 1)"
  "sgn3 m 1 = (if unat m div 32 mod 2 = 0 then 1 else - 1)"
  "sgn3 m 2 = (if unat m div 64 mod 2 = 0 then 1 else - 1)"
  by (simp_all add: sgn3_def signm3_def word_unat_eq_iff unat_and1 unat_drop4 unat_drop5 unat_drop6)

lemma digits128:
  fixes n :: nat
  assumes "n < 128"
  shows "n = n mod 4 + 4 * (n div 4 mod 4) + 16 * (n div 16 mod 2) + 32 * (n div 32 mod 2) + 64 * (n div 64 mod 2)"
proof -
  have e16: "n div 16 = n div 4 div 4" and e32: "n div 32 = n div 16 div 2"
    and e64: "n div 64 = n div 32 div 2"
    by (simp_all add: div_mult2_eq[symmetric])
  have s1: "n = n mod 4 + 4 * (n div 4)" by simp
  have s2: "n div 4 = n div 4 mod 4 + 4 * (n div 16)" unfolding e16 by simp
  have s3: "n div 16 = n div 16 mod 2 + 2 * (n div 32)" unfolding e32 by simp
  have s4: "n div 32 = n div 32 mod 2 + 2 * (n div 64)" unfolding e64 by simp
  have "n div 64 < 2" using assms by simp
  then have s5: "n div 64 mod 2 = n div 64" by simp
  show ?thesis using s1 s2 s3 s4 s5 by linarith
qed

lemma code_eqI:
  assumes "unat m < 128" "unat m' < 128"
    and "pos m 0 = pos m' 0" "pos m 1 = pos m' 1"
    and "sgn3 m 0 = sgn3 m' 0" "sgn3 m 1 = sgn3 m' 1" "sgn3 m 2 = sgn3 m' 2"
  shows "m = m'"
proof -
  have a: "unat m mod 4 = unat m' mod 4" "unat m div 4 mod 4 = unat m' div 4 mod 4"
    using assms(3,4) by (simp_all add: pos0 pos1)
  have b: "unat m div 16 mod 2 = unat m' div 16 mod 2"
    using assms(5) by (simp add: sgn3_unat split: if_splits)
  have c: "unat m div 32 mod 2 = unat m' div 32 mod 2"
    using assms(6) by (simp add: sgn3_unat split: if_splits)
  have d: "unat m div 64 mod 2 = unat m' div 64 mod 2"
    using assms(7) by (simp add: sgn3_unat split: if_splits)
  have "unat m = unat m'"
    using digits128[OF assms(1)] digits128[OF assms(2)] a b c d by simp
  then show ?thesis by (simp add: word_unat_eq_iff)
qed

lemma idx3_iff: "(i \<in> idx3) = (i = 0 \<or> i = 1 \<or> i = 2)"
  by (auto simp: idx3_def)

lemma Valid_pos_range: "Valid m \<Longrightarrow> i \<in> idx3 \<Longrightarrow> pos m i \<in> idx3"
  using Valid_perm[of m] by (auto simp: idx3_iff)

lemma Valid_pos_inj: "Valid m \<Longrightarrow> i \<in> idx3 \<Longrightarrow> j \<in> idx3 \<Longrightarrow> pos m i = pos m j \<Longrightarrow> i = j"
  using Valid_perm[of m] by (auto simp: idx3_iff)

lemma Valid_pos_surj: "Valid m \<Longrightarrow> j \<in> idx3 \<Longrightarrow> \<exists>i\<in>idx3. pos m i = j"
  using Valid_perm[of m] by (auto simp: idx3_iff)

lemma idx3_mem: "0 \<in> idx3" "1 \<in> idx3" "2 \<in> idx3"
  by (simp_all add: idx3_def)

lemma Valid_pos_pos: "Valid a \<Longrightarrow> Valid b \<Longrightarrow> i \<in> idx3 \<Longrightarrow> pos b (pos a i) \<in> idx3"
  by (simp add: Valid_pos_range)

lemma Valid_lt128: "Valid m \<Longrightarrow> unat m < 128"
  by (simp add: Valid_iff)

lemma Mul_Valid:
  assumes "Valid a" "Valid b"
  shows "Valid (Mul a b)"
proof -
  note i = idx3_mem(1,2)
  have k0: "pos b (pos a 0) \<in> idx3" and k1: "pos b (pos a 1) \<in> idx3"
    using assms by (simp_all add: Valid_pos_pos idx3_mem)
  have ne: "pos b (pos a 0) \<noteq> pos b (pos a 1)"
  proof
    assume "pos b (pos a 0) = pos b (pos a 1)"
    then have "pos a 0 = pos a 1"
      using assms i by (meson Valid_pos_inj Valid_pos_range)
    then have "(0::int) = 1" using assms(1) i by (meson Valid_pos_inj)
    then show False by simp
  qed
  show ?thesis
    unfolding Mul_enc[OF assms] Valid_iff
    using k0 k1 ne by (auto simp: enc_dec idx3_iff)
qed

lemma Mul_pos:
  assumes "Valid a" "Valid b" "i \<in> idx3"
  shows "pos (Mul a b) i = pos b (pos a i)"
proof -
  have k0: "pos b (pos a 0) \<in> idx3" and k1: "pos b (pos a 1) \<in> idx3"
    using assms by (simp_all add: Valid_pos_pos idx3_mem)
  have p0: "pos (Mul a b) 0 = pos b (pos a 0)" and p1: "pos (Mul a b) 1 = pos b (pos a 1)"
    unfolding Mul_enc[OF assms(1,2)] using k0 k1 by (simp_all add: enc_dec idx3_iff)
  have p2: "pos (Mul a b) 2 = pos b (pos a 2)"
    using Valid_perm[OF Mul_Valid[OF assms(1,2)]] Valid_perm[OF assms(1)] Valid_perm[OF assms(2)]
    unfolding p0 p1 by (elim disjE conjE) simp_all
  show ?thesis using assms(3) p0 p1 p2 by (auto simp: idx3_iff)
qed

lemma Mul_sgn3:
  assumes "Valid a" "Valid b" "i \<in> idx3"
  shows "sgn3 (Mul a b) i = sgn3 a i * sgn3 b (pos a i)"
proof -
  have k0: "pos b (pos a 0) \<in> idx3" and k1: "pos b (pos a 1) \<in> idx3"
    using assms by (simp_all add: Valid_pos_pos idx3_mem)
  have x: "(if sgn3 a i * sgn3 b j < 0 then - 1 else 1) = sgn3 a i * sgn3 b j" for i j
    using sgn3_cases[of a i] sgn3_cases[of b j] by auto
  have "sgn3 (Mul a b) 0 = sgn3 a 0 * sgn3 b (pos a 0)"
       "sgn3 (Mul a b) 1 = sgn3 a 1 * sgn3 b (pos a 1)"
       "sgn3 (Mul a b) 2 = sgn3 a 2 * sgn3 b (pos a 2)"
    unfolding Mul_enc[OF assms(1,2)] using k0 k1 by (simp_all add: enc_dec idx3_iff x)
  then show ?thesis using assms(3) by (auto simp: idx3_iff)
qed

lemma Valid_eqI:
  assumes "Valid m" "Valid m'"
    and "\<And>i. i \<in> idx3 \<Longrightarrow> pos m i = pos m' i"
    and "\<And>i. i \<in> idx3 \<Longrightarrow> sgn3 m i = sgn3 m' i"
  shows "m = m'"
  by (rule code_eqI) (simp_all add: assms Valid_lt128 idx3_iff)

lemma Mul_inj:
  assumes "Valid a" "Valid b" "Valid b'" "Mul a b = Mul a b'"
  shows "b = b'"
proof (rule Valid_eqI[OF assms(2,3)])
  fix j :: int assume j: "j \<in> idx3"
  then obtain i where i: "i \<in> idx3" "pos a i = j"
    using Valid_pos_surj[OF assms(1)] by blast
  have "pos b (pos a i) = pos b' (pos a i)"
    using Mul_pos[OF assms(1,2) i(1)] Mul_pos[OF assms(1,3) i(1)] assms(4) by simp
  then show "pos b j = pos b' j" by (simp add: i(2))
  have "sgn3 a i * sgn3 b (pos a i) = sgn3 a i * sgn3 b' (pos a i)"
    using Mul_sgn3[OF assms(1,2) i(1)] Mul_sgn3[OF assms(1,3) i(1)] assms(4) by simp
  then show "sgn3 b j = sgn3 b' j" by (simp add: i(2))
qed

lemma Valid_identity: "Valid 4" "i \<in> idx3 \<Longrightarrow> pos 4 i = i" "i \<in> idx3 \<Longrightarrow> sgn3 4 i = 1"
  by (auto simp: Valid_def pos_def sgn3_def signm3_def idx3_iff)

lemma Mul_right_inverse_ex:
  assumes "Valid a"
  shows "\<exists>r. Valid r \<and> Mul a r = 4"
proof -
  let ?V = "{b. Valid b}"
  have "inj_on (Mul a) ?V"
    by (rule inj_onI) (auto intro: Mul_inj[OF assms])
  moreover have "Mul a ` ?V \<subseteq> ?V" using assms by (auto intro: Mul_Valid)
  ultimately have "Mul a ` ?V = ?V"
    by (intro endo_inj_surj) simp_all
  then have "4 \<in> Mul a ` ?V" using Valid_identity(1) by simp
  then show ?thesis by auto
qed

lemma Mul_inverse_commute:
  assumes "Valid m" "Valid r" "Mul m r = 4"
  shows "Mul r m = 4"
proof (rule Valid_eqI[OF Mul_Valid[OF assms(2,1)] Valid_identity(1)])
  have l: "pos r (pos m i) = i" if "i \<in> idx3" for i
    using Mul_pos[OF assms(1,2) that] Valid_identity(2)[OF that] by (simp add: assms(3))
  have s: "sgn3 m i * sgn3 r (pos m i) = 1" if "i \<in> idx3" for i
    using Mul_sgn3[OF assms(1,2) that] Valid_identity(3)[OF that] by (simp add: assms(3))
  fix j :: int assume j: "j \<in> idx3"
  have rj: "pos r j \<in> idx3" using assms(2) j by (rule Valid_pos_range)
  have mrj: "pos m (pos r j) \<in> idx3" using assms(1) rj by (rule Valid_pos_range)
  have "pos r (pos m (pos r j)) = pos r j" using l[OF rj] .
  then have inv_r: "pos m (pos r j) = j"
    using Valid_pos_inj[OF assms(2) mrj j] by simp
  show "pos (Mul r m) j = pos 4 j"
    using Mul_pos[OF assms(2,1) j] inv_r Valid_identity(2)[OF j] by simp
  show "sgn3 (Mul r m) j = sgn3 4 j"
    using Mul_sgn3[OF assms(2,1) j] s[OF rj] inv_r Valid_identity(3)[OF j]
    by (simp add: mult.commute)
qed

lemma unat_codes: "n < 128 \<Longrightarrow> unat (word_of_nat n :: 8 word) = n"
  by (simp add: unat_of_nat)

lemma distinct_codes128: "distinct codes128"
  unfolding codes128_def
  by (rule iffD2[OF distinct_map], intro conjI distinct_upt inj_on_inverseI[where g = unat])
     (simp add: unat_codes)

lemma codes128_iff: "(m \<in> set codes128) = (unat m < 128)"
proof
  assume "m \<in> set codes128"
  then show "unat m < 128" by (auto simp: codes128_def unat_codes)
next
  assume "unat m < 128"
  then have "unat m \<in> set [0..<128]" by simp
  then have "word_of_nat (unat m) \<in> word_of_nat ` set [0..<128]" by (rule imageI)
  then have "word_of_nat (unat m) \<in> set codes128"
    unfolding codes128_def set_map .
  then show "m \<in> set codes128" by simp
qed

lemma Valid_set: "{m. Valid m} = set (filter Valid codes128)"
  by (auto simp: codes128_iff Valid_lt128)

lemma count_Valid: "length (filter Valid codes128) = 48"
  by code_simp

lemma card_Valid: "card {m. Valid m} = 48"
proof -
  have "distinct (filter Valid codes128)" using distinct_codes128 by (rule distinct_filter)
  then have "card (set (filter Valid codes128)) = length (filter Valid codes128)"
    by (rule distinct_card)
  then show ?thesis unfolding Valid_set count_Valid .
qed

lemma init_inner_step_other: "x \<noteq> m \<Longrightarrow> init_inner m r tab x = tab x"
  by (simp add: init_inner_def)

lemma init_inner_other: "x \<noteq> m \<Longrightarrow> fold (init_inner m) rs tab x = tab x"
  by (induction rs arbitrary: tab) (simp_all add: init_inner_step_other)

lemma init_inner_self:
  assumes "\<And>r. r \<in> set rs \<Longrightarrow> Valid r \<Longrightarrow> Mul m r = 4 \<Longrightarrow> r = r0"
  shows "fold (init_inner m) rs tab m =
           (if \<exists>r\<in>set rs. Valid r \<and> Mul m r = 4 then r0 else tab m)"
  using assms
proof (induction rs arbitrary: tab)
  case Nil
  then show ?case by simp
next
  case (Cons r rs)
  have ih: "fold (init_inner m) rs tab' m =
              (if \<exists>r\<in>set rs. Valid r \<and> Mul m r = 4 then r0 else tab' m)" for tab'
    by (rule Cons.IH) (simp add: Cons.prems)
  have hd: "Valid r \<Longrightarrow> Mul m r = 4 \<Longrightarrow> r = r0"
    by (rule Cons.prems) simp_all
  have st: "init_inner m r tab m = (if Valid r \<and> Mul m r = 4 then r else tab m)"
    by (simp add: init_inner_def)
  have "fold (init_inner m) (r # rs) tab m =
          (if \<exists>r\<in>set rs. Valid r \<and> Mul m r = 4 then r0 else init_inner m r tab m)"
    by (simp add: ih)
  then show ?case
    unfolding st using hd by auto
qed

lemma init_outer_other: "x \<noteq> m \<Longrightarrow> init_outer m tab x = tab x"
  by (simp add: init_outer_def init_inner_other)

lemma init_outer_self:
  assumes "Valid m" "Valid r0" "Mul m r0 = 4"
  shows "init_outer m tab m = r0"
proof -
  have u: "r = r0" if "Valid r" "Mul m r = 4" for r
    using Mul_inj[OF assms(1) that(1) assms(2)] that(2) assms(3) by simp
  have "r0 \<in> set codes128" using assms(2) by (simp add: codes128_iff Valid_lt128)
  then have "\<exists>r\<in>set codes128. Valid r \<and> Mul m r = 4" using assms(2,3) by blast
  then show ?thesis
    using assms(1) by (simp add: init_outer_def init_inner_self[where ?r0.0 = r0] u)
qed

lemma fold_init_outer_notin: "x \<notin> set ms \<Longrightarrow> fold init_outer ms tab x = tab x"
  by (induction ms arbitrary: tab) (simp_all add: init_outer_other)

lemma fold_init_outer_valid:
  assumes "Valid m" "Valid r0" "Mul m r0 = 4" "m \<in> set ms"
  shows "fold init_outer ms tab m = r0"
  using assms(4)
proof (induction ms arbitrary: tab rule: rev_induct)
  case Nil
  then show ?case by simp
next
  case (snoc x xs)
  show ?case
  proof (cases "x = m")
    case True
    then show ?thesis by (simp add: init_outer_self[OF assms(1-3)])
  next
    case False
    then show ?thesis using snoc by (simp add: init_outer_other)
  qed
qed

lemma Inverse_unique:
  assumes "Valid m" "Valid r" "Mul m r = 4"
  shows "Inverse m = r"
proof -
  have lt: "unat m < 128" using assms(1) by (rule Valid_lt128)
  then have "\<not> m \<ge> 128" by (simp add: word_le_nat_alt)
  moreover have "matInverses m = r"
    unfolding matInverses_def
    using assms lt by (intro fold_init_outer_valid) (simp_all add: codes128_iff)
  ultimately show ?thesis by (simp add: Inverse_def)
qed

lemma Inverse_props:
  assumes "Valid m"
  shows "Valid (Inverse m) \<and> Mul m (Inverse m) = 4 \<and> Mul (Inverse m) m = 4"
proof -
  obtain r where r: "Valid r" "Mul m r = 4"
    using Mul_right_inverse_ex[OF assms] by blast
  have "Inverse m = r" using assms r by (rule Inverse_unique)
  then show ?thesis using r Mul_inverse_commute[OF assms r] by simp
qed

lemma Mul_identity: "Mul 4 4 = 4"
  by code_simp

lemma wrap64_id: "isInt64 x \<Longrightarrow> wrap64 x = x"
  by (simp add: wrap64_def isInt64_def signed_take_bit_int_eq_self)

lemma wrap64_idem [simp]: "wrap64 (wrap64 x) = wrap64 x"
  by (simp add: wrap64_def)

lemma wrap64_0 [simp]: "wrap64 0 = 0"
  by (simp add: wrap64_def)

lemma isInt64_wrap64: "isInt64 (wrap64 x)"
  using signed_take_bit_int_greater_eq_minus_exp[of 63 x] signed_take_bit_int_less_exp[of 63 x]
  by (simp add: wrap64_def isInt64_def)

lemma neg64_neg64: "neg64 (neg64 x) = wrap64 x"
  by (simp add: neg64_def wrap64_def signed_take_bit_minus)

lemma MulVec_row_Valid:
  assumes "Valid m" "i \<in> idx3"
  shows "MulVec_row m x i = wrap64 (sgn3 m i * vget x (pos m i))"
  using Valid_perm[OF assms(1)] assms(2)
  by (auto simp: MulVec_row_def Get_pos idx3_iff add64_def mul64_def)

lemma MulVec_Valid:
  assumes "Valid m"
  shows "MulVec m x = (wrap64 (sgn3 m 0 * vget x (pos m 0)), wrap64 (sgn3 m 1 * vget x (pos m 1)),
                       wrap64 (sgn3 m 2 * vget x (pos m 2)))"
  by (simp add: MulVec_def MulVec_row_Valid[OF assms] idx3_mem)

lemma neg64_min: "neg64 (- (2 ^ 63)) = - (2 ^ 63)"
  by (simp add: neg64_def wrap64_def)

lemma neg64_id: "isInt64 x \<Longrightarrow> x \<noteq> - (2 ^ 63) \<Longrightarrow> neg64 x = - x"
  unfolding neg64_def by (rule wrap64_id) (simp add: isInt64_def)

lemma abseq_sgn:
  assumes "isInt64 x"
  shows "abseq x (wrap64 (sgn3 m i * x))"
proof (cases "sgn3 m i = 1")
  case True
  then show ?thesis by (simp add: abseq_def wrap64_id[OF assms])
next
  case False
  then have "sgn3 m i = - 1" using sgn3_cases[of m i] by simp
  then have "neg64 (wrap64 (sgn3 m i * x)) = x"
    using neg64_neg64[of x] by (simp add: neg64_def wrap64_id[OF assms])
  then show ?thesis by (simp add: abseq_def)
qed

lemma MulVec_plausible:
  assumes "Valid m" "isInt64Vec v"
  shows "vecSeemsPlausible v (MulVec m v)"
proof -
  obtain x y z where v: "v = (x, y, z)" by (cases v)
  have r: "isInt64 x" "isInt64 y" "isInt64 z"
    using assms(2) by (simp_all add: v isInt64Vec_def vget_def)
  note a = abseq_sgn[OF r(1), of m] abseq_sgn[OF r(2), of m] abseq_sgn[OF r(3), of m]
  show ?thesis
    unfolding MulVec_Valid[OF assms(1)] v
    using Valid_perm[OF assms(1)]
    by (elim disjE conjE) (simp_all add: vecSeemsPlausible_def vget_def a)
qed

subsection \<open>The claims about encoded rotations\<close>

text \<open>
  C2. Exactly 48 codes are valid (among the 128 codes with bit 7 clear, and so among all
  256 values of a byte); the product of two valid codes is valid; and for every valid
  code \<open>a\<close> the map \<open>b \<mapsto> Mul a b\<close> is a bijection of the valid codes onto themselves.
\<close>

theorem valid_codes_closed_latin_square:
  "card {m. Valid m} = 48 \<and> length (filter Valid codes128) = 48
   \<and> (\<forall>a b. Valid a \<longrightarrow> Valid b \<longrightarrow> Valid (Mul a b))
   \<and> (\<forall>a. Valid a \<longrightarrow> bij_betw (Mul a) {b. Valid b} {b. Valid b})"
proof (intro conjI allI impI)
  show "card {m. Valid m} = 48" by (rule card_Valid)
  show "length (filter Valid codes128) = 48" by (rule count_Valid)
next
  fix a b assume "Valid a" "Valid b"
  then show "Valid (Mul a b)" by (rule Mul_Valid)
next
  fix a assume a: "Valid a"
  let ?V = "{b. Valid b}"
  have inj: "inj_on (Mul a) ?V"
    by (rule inj_onI) (auto intro: Mul_inj[OF a])
  have "Mul a ` ?V \<subseteq> ?V" using a by (auto intro: Mul_Valid)
  with inj have "Mul a ` ?V = ?V" by (intro endo_inj_surj) simp_all
  with inj show "bij_betw (Mul a) ?V ?V" by (simp add: bij_betw_def)
qed

theorem valid_codes_closed_latin_square_witness:
  "Valid 33 \<and> Valid 18 \<and> Valid (Mul 33 18) \<and> bij_betw (Mul 33) {b. Valid b} {b. Valid b}"
proof -
  have a: "Valid 33" and b: "Valid 18" by (simp_all add: Valid_def)
  from valid_codes_closed_latin_square a b show ?thesis by blast
qed

text \<open>
  C3. For every valid code \<open>m\<close>, \<open>Inverse m\<close> is valid and is a two-sided inverse of \<open>m\<close>
  with respect to the identity code 4; the identity is its own square and its own inverse.
\<close>

theorem Inverse_is_two_sided_inverse:
  "(\<forall>m. Valid m \<longrightarrow> Valid (Inverse m)
        \<and> Mul m (Inverse m) = Matrix3x3Identity \<and> Mul (Inverse m) m = Matrix3x3Identity)
   \<and> Mul Matrix3x3Identity Matrix3x3Identity = Matrix3x3Identity
   \<and> Inverse Matrix3x3Identity = Matrix3x3Identity
   \<and> Matrix3x3Identity = 4"
proof -
  have "Inverse 4 = 4"
    using Valid_identity(1) Valid_identity(1) Mul_identity by (rule Inverse_unique)
  then show ?thesis
    by (simp add: Matrix3x3Identity_def Inverse_props Mul_identity)
qed

theorem Inverse_is_two_sided_inverse_witness:
  "Valid 33 \<and> Valid (Inverse 33) \<and> Mul 33 (Inverse 33) = 4 \<and> Mul (Inverse 33) 33 = 4"
proof -
  have a: "Valid 33" by (simp add: Valid_def)
  from Inverse_is_two_sided_inverse a show ?thesis
    by (simp add: Matrix3x3Identity_def)
qed

text \<open>
  C4. For a valid code \<open>m\<close> and any vector \<open>v\<close> of Go \<open>int\<close>s, \<open>MulVec m v\<close> is a
  permutation of the components of \<open>v\<close> with sign changes (so it passes
  \<open>vecSeemsPlausible\<close>); and the matrix that \<open>Get\<close> decodes has entries in \<open>{-1, 0, 1}\<close>,
  with exactly one nonzero entry in each row and in each column. The sign change is Go's
  negation of an \<open>int\<close>, which is the negation of the integers for every value but
  \<open>-2^63\<close>, the one value it leaves as it is: so each component of \<open>MulVec m v\<close> is a
  component of \<open>v\<close> or the negative of one, each component of \<open>v\<close> being used once.
\<close>

theorem MulVec_signed_permutation:
  assumes "Valid m" "isInt64Vec v"
  shows "(\<exists>\<sigma> \<epsilon>. bij_betw \<sigma> idx3 idx3
            \<and> (\<forall>i\<in>idx3. (\<epsilon> i = (1::int) \<or> \<epsilon> i = - 1)
                  \<and> vget (MulVec m v) i = (if \<epsilon> i = 1 then vget v (\<sigma> i) else neg64 (vget v (\<sigma> i)))
                  \<and> (vget (MulVec m v) i = vget v (\<sigma> i) \<or> vget (MulVec m v) i = - vget v (\<sigma> i))))
       \<and> isInt64Vec (MulVec m v)
       \<and> vecSeemsPlausible v (MulVec m v)
       \<and> (\<forall>i\<in>idx3. \<forall>j\<in>idx3. Get m i j \<in> {- 1, 0, 1})
       \<and> (\<forall>i\<in>idx3. \<exists>!j. j \<in> idx3 \<and> Get m i j \<noteq> 0)
       \<and> (\<forall>j\<in>idx3. \<exists>!i. i \<in> idx3 \<and> Get m i j \<noteq> 0)"
proof (intro conjI)
  have bij: "bij_betw (pos m) idx3 idx3"
    unfolding bij_betw_def
  proof
    show "inj_on (pos m) idx3"
      by (rule inj_onI) (rule Valid_pos_inj[OF assms(1)])
    show "pos m ` idx3 = idx3"
      using Valid_pos_range[OF assms(1)] Valid_pos_surj[OF assms(1)] by blast
  qed
  have row: "vget (MulVec m v) i = wrap64 (sgn3 m i * vget v (pos m i))" if "i \<in> idx3" for i
    using that by (auto simp: MulVec_def vget_def MulVec_row_Valid[OF assms(1)] idx3_iff)
  have rng: "isInt64 (vget v j)" if "j \<in> idx3" for j
    using that assms(2) by (auto simp: isInt64Vec_def idx3_iff)
  have all: "\<forall>i\<in>idx3. (sgn3 m i = 1 \<or> sgn3 m i = - 1)
          \<and> vget (MulVec m v) i = (if sgn3 m i = 1 then vget v (pos m i) else neg64 (vget v (pos m i)))
          \<and> (vget (MulVec m v) i = vget v (pos m i) \<or> vget (MulVec m v) i = - vget v (pos m i))"
  proof
    fix i assume i: "i \<in> idx3"
    let ?x = "vget v (pos m i)"
    have x: "isInt64 ?x"
      using rng Valid_pos_range[OF assms(1) i] by blast
    have e: "vget (MulVec m v) i = (if sgn3 m i = 1 then ?x else neg64 ?x)"
      using sgn3_cases[of m i] wrap64_id[OF x] by (auto simp: row[OF i] neg64_def)
    have n: "neg64 ?x = ?x \<or> neg64 ?x = - ?x"
      using neg64_min neg64_id[OF x] by (cases "?x = - (2 ^ 63)") simp_all
    show "(sgn3 m i = 1 \<or> sgn3 m i = - 1)
          \<and> vget (MulVec m v) i = (if sgn3 m i = 1 then ?x else neg64 ?x)
          \<and> (vget (MulVec m v) i = ?x \<or> vget (MulVec m v) i = - ?x)"
    proof (cases "sgn3 m i = 1")
      case True
      then show ?thesis using e by simp
    next
      case False
      then have "sgn3 m i = - 1" using sgn3_cases[of m i] by simp
      then show ?thesis using e n by simp
    qed
  qed
  show "\<exists>\<sigma> \<epsilon>. bij_betw \<sigma> idx3 idx3
            \<and> (\<forall>i\<in>idx3. (\<epsilon> i = (1::int) \<or> \<epsilon> i = - 1)
                  \<and> vget (MulVec m v) i = (if \<epsilon> i = 1 then vget v (\<sigma> i) else neg64 (vget v (\<sigma> i)))
                  \<and> (vget (MulVec m v) i = vget v (\<sigma> i) \<or> vget (MulVec m v) i = - vget v (\<sigma> i)))"
  proof (rule exI[of _ "pos m"], rule exI[of _ "sgn3 m"], rule conjI)
    show "bij_betw (pos m) idx3 idx3" by (rule bij)
    show "\<forall>i\<in>idx3. (sgn3 m i = 1 \<or> sgn3 m i = - 1)
          \<and> vget (MulVec m v) i = (if sgn3 m i = 1 then vget v (pos m i) else neg64 (vget v (pos m i)))
          \<and> (vget (MulVec m v) i = vget v (pos m i) \<or> vget (MulVec m v) i = - vget v (pos m i))"
      by (rule all)
  qed
next
  show "isInt64Vec (MulVec m v)"
    by (simp add: MulVec_Valid[OF assms(1)] isInt64Vec_def vget_def isInt64_wrap64)
next
  show "vecSeemsPlausible v (MulVec m v)"
    by (rule MulVec_plausible[OF assms])
next
  show "\<forall>i\<in>idx3. \<forall>j\<in>idx3. Get m i j \<in> {- 1, 0, 1}"
    using sgn3_cases[of m] by (auto simp: Get_pos)
next
  show "\<forall>i\<in>idx3. \<exists>!j. j \<in> idx3 \<and> Get m i j \<noteq> 0"
    using Valid_pos_range[OF assms(1)] by (auto simp: Get_pos)
next
  show "\<forall>j\<in>idx3. \<exists>!i. i \<in> idx3 \<and> Get m i j \<noteq> 0"
  proof
    fix j assume j: "j \<in> idx3"
    obtain i where i: "i \<in> idx3" "pos m i = j"
      using Valid_pos_surj[OF assms(1) j] by blast
    show "\<exists>!i. i \<in> idx3 \<and> Get m i j \<noteq> 0"
    proof (rule ex1I[of _ i])
      show "i \<in> idx3 \<and> Get m i j \<noteq> 0" using i by (simp add: Get_pos)
    next
      fix i' assume "i' \<in> idx3 \<and> Get m i' j \<noteq> 0"
      then have "i' \<in> idx3" "pos m i' = j" by (auto simp: Get_pos split: if_splits)
      then show "i' = i" using i Valid_pos_inj[OF assms(1)] by simp
    qed
  qed
qed

theorem MulVec_signed_permutation_witness:
  "Valid 33 \<and> isInt64Vec (- (2 ^ 63), - 2, 7)
   \<and> MulVec 33 (- (2 ^ 63), - 2, 7) = (- 2, - (2 ^ 63), 7)
   \<and> vecSeemsPlausible (- (2 ^ 63), - 2, 7) (- 2, - (2 ^ 63), 7)"
proof -
  have a: "Valid 33" by (simp add: Valid_def)
  have b: "isInt64Vec (- (2 ^ 63), - 2, 7)"
    by (simp add: isInt64Vec_def isInt64_def vget_def)
  have c: "MulVec 33 (- (2 ^ 63), - 2, 7) = (- 2, - (2 ^ 63), 7)"
    by (simp add: MulVec_def MulVec_row_def Get_def eqm3_def signm3_def vget_def
        add64_def mul64_def wrap64_def)
  from MulVec_signed_permutation[OF a b] a b c show ?thesis by simp
qed

section \<open>Properties of the reader\<close>

text \<open>
  C8, as the claim states it, fails: on a short read that finds some bytes, \<open>ReadBytes\<close>
  returns them in the buffer, which is then not zero-filled. Reading 4 bytes from the
  input \<open>[1, 2]\<close> gives \<open>[1, 2, 0, 0]\<close>.
\<close>

theorem ReadBytes_short_read_counterexample:
  "ReadBytes 4 (newReader [1, 2]) = Inr ([1, 2, 0, 0], \<lparr>vr_r = [], vr_err = Some ErrUnexpectedEOF\<rparr>)
   \<and> [1, 2, 0, 0] \<noteq> replicate 4 (0::byte)"
  by (simp add: ReadBytes_def ReadBytesN_def ReadFull_def newReader_def numeral_eq_Suc)

text \<open>
  C8, amended. On a short read (no error latched, fewer than \<open>n\<close> bytes left) \<open>ReadBytes n\<close>
  latches \<open>io.EOF\<close> (no byte left) or \<open>io.ErrUnexpectedEOF\<close> (some bytes left) and returns
  a buffer of length \<open>n\<close> holding the bytes that were left followed by zeros, which is
  zero-filled exactly when all bytes left were zero (in particular when none was left).
  Once an error is latched, \<open>ReadBytes\<close>, \<open>ReadUint8\<close>, \<open>ReadInt32\<close>, \<open>ReadString\<close> return
  zero values and \<open>RequireEOF\<close> does nothing: the reader, with its error, is unchanged.
\<close>

theorem ReadBytes_short_read_keeps_prefix:
  "(vr_err vr = None \<and> length (vr_r vr) < n \<longrightarrow>
      (\<exists>buf vr'. ReadBytes (int n) vr = Inr (buf, vr')
         \<and> buf = vr_r vr @ replicate (n - length (vr_r vr)) 0 \<and> length buf = n
         \<and> (buf = replicate n 0) = (\<forall>b\<in>set (vr_r vr). b = 0)
         \<and> vr_r vr' = []
         \<and> Error vr' = Some (if vr_r vr = [] then EOF else ErrUnexpectedEOF)))
   \<and> (vr_err vr \<noteq> None \<longrightarrow>
        ReadBytes (int n) vr = Inr (replicate n 0, vr)
      \<and> ReadUint8 vr = (0, vr)
      \<and> ReadInt32 vr = (0, vr)
      \<and> ReadString vr = Inr ([], vr)
      \<and> RequireEOF chunk vr = vr)"
proof (intro conjI impI)
  assume a: "vr_err vr = None \<and> length (vr_r vr) < n"
  have z: "(xs @ replicate (n - length xs) 0 = replicate n (0::byte)) = (\<forall>b\<in>set xs. b = 0)"
    if "length xs < n" for xs :: "byte list"
  proof
    assume "xs @ replicate (n - length xs) 0 = replicate n (0::byte)"
    then have "set xs \<subseteq> set (replicate n (0::byte))"
      by (metis Un_upper1 set_append)
    then show "\<forall>b\<in>set xs. b = 0" by (auto split: if_splits)
  next
    assume "\<forall>b\<in>set xs. b = 0"
    then have "xs = replicate (length xs) 0" by (simp add: replicate_length_same)
    then have "xs @ replicate (n - length xs) 0 = replicate (length xs) 0 @ replicate (n - length xs) 0"
      by simp
    also have "\<dots> = replicate n 0" using that by (simp flip: replicate_add)
    finally show "xs @ replicate (n - length xs) 0 = replicate n (0::byte)" .
  qed
  show "\<exists>buf vr'. ReadBytes (int n) vr = Inr (buf, vr')
         \<and> buf = vr_r vr @ replicate (n - length (vr_r vr)) 0 \<and> length buf = n
         \<and> (buf = replicate n 0) = (\<forall>b\<in>set (vr_r vr). b = 0)
         \<and> vr_r vr' = []
         \<and> Error vr' = Some (if vr_r vr = [] then EOF else ErrUnexpectedEOF)"
    using a z[of "vr_r vr"] by (simp add: ReadBytes_def ReadBytesN_def ReadFull_def Error_def)
next
  assume e: "vr_err vr \<noteq> None"
  show "ReadBytes (int n) vr = Inr (replicate n 0, vr)"
    using e by (simp add: ReadBytes_def ReadBytesN_def)
  show "ReadUint8 vr = (0, vr)"
    using e by (simp add: ReadUint8_def ReadBytesN_def)
  show i: "ReadInt32 vr = (0, vr)"
    using e by (simp add: ReadInt32_def ReadBytesN_def numeral_eq_Suc)
  show "ReadString vr = Inr ([], vr)"
    using e by (simp add: ReadString_def i ReadBytes_def ReadBytesN_def string_of_bytes_def)
  show "RequireEOF chunk vr = vr"
    using e by (simp add: RequireEOF_def Error_def)
qed

theorem ReadBytes_short_read_keeps_prefix_witness:
  "(\<exists>vr'. ReadBytes 4 (newReader [1, 2]) = Inr ([1, 2, 0, 0], vr') \<and> Error vr' = Some ErrUnexpectedEOF)
   \<and> ReadBytes 4 \<lparr>vr_r = [], vr_err = Some ErrUnexpectedEOF\<rparr>
       = Inr ([0, 0, 0, 0], \<lparr>vr_r = [], vr_err = Some ErrUnexpectedEOF\<rparr>)
   \<and> ReadInt32 \<lparr>vr_r = [], vr_err = Some ErrUnexpectedEOF\<rparr> = (0, \<lparr>vr_r = [], vr_err = Some ErrUnexpectedEOF\<rparr>)"
  using ReadBytes_short_read_keeps_prefix[of "newReader [1, 2]" 4]
        ReadBytes_short_read_keeps_prefix[of "\<lparr>vr_r = [], vr_err = Some ErrUnexpectedEOF\<rparr>" 4]
  by (auto simp: newReader_def numeral_eq_Suc)

section \<open>Reading the byte format back\<close>

lemma char_of_unat_of_char: "char_of (unat (of_char x :: byte)) = x"
proof -
  have "(of_char x :: byte) = of_nat (of_char x)" by (simp add: of_nat_of_char)
  then have "unat (of_char x :: byte) = of_char x mod 256" by (simp add: unat_of_nat)
  then show ?thesis by simp
qed

lemma string_of_bytes_of_string [simp]: "string_of_bytes (bytes_of_string s) = s"
  by (simp add: bytes_of_string_def string_of_bytes_def comp_def char_of_unat_of_char)

lemma length_bytes_of_string [simp]: "length (bytes_of_string s) = length s"
  by (simp add: bytes_of_string_def)

lemma length_le32 [simp]: "length (le32 x) = 4"
  by (simp add: le32_def)

lemma digits32:
  "(x::int) mod 4294967296 = x mod 256 + 256 * (x div 256 mod 256)
     + 65536 * (x div 65536 mod 256) + 16777216 * (x div 16777216 mod 256)"
proof -
  have a1: "x mod 65536 = 256 * (x div 256 mod 256) + x mod 256"
    using zmod_zmult2_eq[of 256 x 256] by simp
  have a2: "x mod 16777216 = 65536 * (x div 65536 mod 256) + x mod 65536"
    using zmod_zmult2_eq[of 256 x 65536] by simp
  have a3: "x mod 4294967296 = 16777216 * (x div 16777216 mod 256) + x mod 16777216"
    using zmod_zmult2_eq[of 256 x 16777216] by simp
  show ?thesis using a1 a2 a3 by linarith
qed

lemma ucast_byte: "(ucast (word_of_int y :: byte) :: 32 word) = word_of_int (y mod 256)"
  by (simp add: unsigned_of_int take_bit_eq_mod)

lemma le32_sum:
  "(ucast (word_of_int x :: byte) + push_bit 8 (ucast (word_of_int (x div 256) :: byte))
     + push_bit 16 (ucast (word_of_int (x div 65536) :: byte))
     + push_bit 24 (ucast (word_of_int (x div 16777216) :: byte)) :: 32 word) = word_of_int x"
proof -
  have "(word_of_int x :: 32 word) = word_of_int (x mod 4294967296)"
    by (simp add: word_of_int_eq_iff take_bit_eq_mod)
  also have "\<dots> = word_of_int (x mod 256 + 256 * (x div 256 mod 256)
      + 65536 * (x div 65536 mod 256) + 16777216 * (x div 16777216 mod 256))"
    by (simp only: digits32)
  finally show ?thesis
    by (simp add: ucast_byte push_bit_eq_mult mult.commute)
qed

lemma sint_int32: "int32 x \<Longrightarrow> sint (word_of_int x :: 32 word) = x"
  by (simp add: int32_def signed_of_int signed_take_bit_int_eq_self)

lemma newReader_rd: "newReader c = rd c"
  by (simp add: newReader_def rd_def)

lemma Error_rd [simp]: "Error (rd bs) = None"
  by (simp add: Error_def rd_def)

lemma ReadBytesN_rd: "length bs = n \<Longrightarrow> ReadBytesN n (rd (bs @ rest)) = (bs, rd rest)"
  by (simp add: ReadBytesN_def ReadFull_def rd_def)

lemma ReadBytes_rd: "int (length bs) = n \<Longrightarrow> ReadBytes n (rd (bs @ rest)) = Inr (bs, rd rest)"
  by (auto simp: ReadBytes_def ReadBytesN_rd)

lemma ReadInt32_rd: "int32 x \<Longrightarrow> ReadInt32 (rd (le32 x @ rest)) = (x, rd rest)"
  unfolding ReadInt32_def ReadBytesN_rd[of "le32 x" 4 rest, OF length_le32]
  by (simp add: le32_def le32_sum sint_int32)

lemma ReadUint8_rd: "ReadUint8 (rd (b # rest)) = (b, rd rest)"
  using ReadBytesN_rd[of "[b]" 1 rest] by (simp add: ReadUint8_def)

lemma RequireEOF_rd: "RequireEOF chunk (rd []) = rd []"
  by (simp add: RequireEOF_def ReadUint8_def ReadBytesN_def ReadFull_def rd_def Error_def)

lemma RequireEOF_more: "Error (RequireEOF chunk (rd (b # bs))) \<noteq> None"
  by (simp add: RequireEOF_def ReadUint8_def ReadBytesN_def ReadFull_def rd_def Error_def)

lemma int32_simps [simp]: "int32 0" "int32 1" "int32 (- 1)" "int32 (numeral n) = (numeral n < (2147483648::int))"
  by (simp_all add: int32_def)

lemma ReadString_rd:
  "int32 (int (length s)) \<Longrightarrow> ReadString (rd (enc_string s @ rest)) = Inr (s, rd rest)"
  by (simp add: ReadString_def enc_string_def ReadInt32_rd ReadBytes_rd)

lemma ReadDict_empty: "ReadDict (rd (enc_dict [] @ rest))
    = Inr (\<lparr>dict_d = [], dict_read = [], dict_err = None\<rparr>, rd rest)"
  by (simp add: ReadDict_def enc_dict_def ReadInt32_rd)

lemma ReadDict_single:
  "int32 (int (length k)) \<Longrightarrow> int32 (int (length v)) \<Longrightarrow>
   ReadDict (rd (enc_dict [(k, v)] @ rest))
    = Inr (\<lparr>dict_d = [(k, v)], dict_read = [], dict_err = None\<rparr>, rd rest)"
  by (simp add: ReadDict_def enc_dict_def ReadInt32_rd ReadString_rd)

lemma parseChunk_rd:
  assumes "length tag = 4" "int32 (int (length c))" "int32 (int (length cc))"
  shows "parseChunk (rd (enc_chunk tag c cc @ rest)) = Inr (tag, c, cc, rd rest)"
  using assms
  by (simp add: parseChunk_def enc_chunk_def ReadBytesN_rd ReadInt32_rd ReadBytes_rd)

lemma parseChunk_end: "parseChunk (rd []) = Inl EOF"
  by (simp add: parseChunk_def ReadBytesN_def ReadFull_def rd_def ReadInt32_def Error_def)

lemma parsePackChunk_le32: "int32 n \<Longrightarrow> parsePackChunk (le32 n) = (n, None)"
  using ReadInt32_rd[of n "[]"]
  by (simp add: parsePackChunk_def newReader_rd RequireEOF_rd)

lemma parseSizeChunk_le32:
  "int32 x \<Longrightarrow> int32 y \<Longrightarrow> int32 z \<Longrightarrow> parseSizeChunk (le32 x @ le32 y @ le32 z) = ((x, y, z), None)"
  using ReadInt32_rd[of z "[]"]
  by (simp add: parseSizeChunk_def newReader_rd RequireEOF_rd ReadInt32_rd)

lemma XYZI_loop_rd:
  "XYZI_loop (length vs) acc (rd (enc_voxels vs @ rest)) = (acc @ vs, rd rest)"
proof (induction vs arbitrary: acc)
  case Nil
  then show ?case by (simp add: enc_voxels_def)
next
  case (Cons v vs)
  have e: "enc_voxels (v # vs) = [Voxel_X v, Voxel_Y v, Voxel_Z v, ColorIndex v] @ enc_voxels vs"
    by (simp add: enc_voxels_def)
  have eta: "\<lparr>Voxel_X = Voxel_X v, Voxel_Y = Voxel_Y v, Voxel_Z = Voxel_Z v,
      ColorIndex = ColorIndex v\<rparr> = v"
    by (cases v) simp
  show ?case
    using Cons.IH[of "acc @ [v]"] by (simp add: ReadUint8_rd e eta)
qed

lemma parseXYZIChunk_rd:
  "n = int (length vs) \<Longrightarrow> int32 n \<Longrightarrow> parseXYZIChunk (le32 n @ enc_voxels vs) = (vs, None)"
  using XYZI_loop_rd[of vs "[]" "[]"]
  by (simp add: parseXYZIChunk_def newReader_rd ReadInt32_rd RequireEOF_rd)

lemma RGBA_loop_rd:
  "RGBA_loop (length pal) (rd (enc_palette pal @ rest)) = (pal, rd rest)"
proof (induction pal)
  case Nil
  then show ?case by (simp add: enc_palette_def)
next
  case (Cons p pal)
  obtain r g b a where p: "p = (r, g, b, a)" by (cases p)
  have "enc_palette (p # pal) = [r, g, b, a] @ enc_palette pal"
    by (simp add: enc_palette_def p)
  then show ?case
    using Cons.IH by (simp add: ReadUint8_rd p)
qed

lemma parseRGBAChunk_rd:
  "length pal = 256 \<Longrightarrow> parseRGBAChunk (enc_palette pal) = (pal, None)"
  using RGBA_loop_rd[of pal "[]"]
  by (simp add: parseRGBAChunk_def newReader_rd RequireEOF_rd)

lemma length_RGBA_loop: "length (fst (RGBA_loop n vr)) = n"
  by (induction n arbitrary: vr) (simp_all add: split_def Let_def)

lemma length_parseRGBAChunk: "length (fst (parseRGBAChunk c)) = 256"
  by (simp add: parseRGBAChunk_def split_def Let_def length_RGBA_loop)

lemmas ReadInt32_rd_end = ReadInt32_rd[where rest = "[]", simplified]
lemmas ReadDict_empty_end = ReadDict_empty[where rest = "[]", simplified]
lemmas ReadDict_single_end = ReadDict_single[where rest = "[]", simplified]

lemma dict_empty_reads:
  "dict_ReadString name def \<lparr>dict_d = [], dict_read = rs, dict_err = None\<rparr>
     = (def, \<lparr>dict_d = [], dict_read = name # rs, dict_err = None\<rparr>)"
  "ReadFloat rt name fdef \<lparr>dict_d = [], dict_read = rs, dict_err = None\<rparr>
     = (fdef, \<lparr>dict_d = [], dict_read = name # rs, dict_err = None\<rparr>)"
  "ReadBool rt name bdef \<lparr>dict_d = [], dict_read = rs, dict_err = None\<rparr>
     = (bdef, \<lparr>dict_d = [], dict_read = name # rs, dict_err = None\<rparr>)"
  "ReadMatrix3x3 rt name mdef \<lparr>dict_d = [], dict_read = rs, dict_err = None\<rparr>
     = (mdef, \<lparr>dict_d = [], dict_read = name # rs, dict_err = None\<rparr>)"
  "Read3xInt32 rt name tdef \<lparr>dict_d = [], dict_read = rs, dict_err = None\<rparr>
     = (tdef, \<lparr>dict_d = [], dict_read = name # rs, dict_err = None\<rparr>)"
  "AssertNoUnreadFields \<lparr>dict_d = [], dict_read = rs, dict_err = None\<rparr> = None"
  "dict_Error \<lparr>dict_d = [], dict_read = rs, dict_err = None\<rparr> = None"
  by (simp_all add: dict_ReadString_def ReadFloat_def ReadBool_def ReadMatrix3x3_def
        Read3xInt32_def AssertNoUnreadFields_def dict_Error_def)

lemma parsenTRNChunk_rd:
  assumes "int32 nid" "int32 child" "int32 layer"
  shows "parsenTRNChunk rt (le32 nid @ enc_dict [] @ le32 child @ le32 (- 1) @ le32 layer
                            @ le32 1 @ enc_dict [])
         = Inr (nid, child, layer, node0)"
  using assms
  by (simp add: parsenTRNChunk_def newReader_rd ReadInt32_rd ReadDict_empty ReadDict_empty_end
        bindE_def guardE_def dict_empty_reads RequireEOF_rd node0_def)

lemma childIDs_loop_rd:
  "\<forall>c\<in>set cs. int32 c \<Longrightarrow>
   childIDs_loop (length cs) acc (rd (concat (map le32 cs) @ rest)) = (acc @ cs, rd rest)"
  by (induction cs arbitrary: acc) (simp_all add: ReadInt32_rd)

lemma parsenGRPChunk_rd:
  assumes "int32 nid" "int32 (int (length cs))" "\<forall>c\<in>set cs. int32 c"
  shows "parsenGRPChunk rt (le32 nid @ enc_dict [] @ le32 (int (length cs)) @ concat (map le32 cs))
         = Inr (nid, cs, \<lparr>Name = [], Hidden = False, Children = []\<rparr>)"
  using assms childIDs_loop_rd[of cs "[]" "[]"]
  by (simp add: parsenGRPChunk_def newReader_rd ReadInt32_rd ReadDict_empty
        bindE_def guardE_def dict_empty_reads RequireEOF_rd)

lemma parsenSHPChunk_rd:
  assumes "int32 nid" "int32 model"
  shows "parsenSHPChunk rt (le32 nid @ enc_dict [] @ le32 1 @ le32 model @ enc_dict [])
         = Inr (nid, [model], \<lparr>Name = [], Hidden = False, Models = []\<rparr>)"
  using assms
  by (simp add: parsenSHPChunk_def newReader_rd ReadInt32_rd ReadDict_empty ReadDict_empty_end
        bindE_def guardE_def dict_empty_reads RequireEOF_rd)

lemma parseLAYRChunk_rd:
  assumes "int32 lid"
  shows "parseLAYRChunk rt (le32 lid @ enc_dict [] @ le32 (- 1))
         = Inr (lid, \<lparr>Layer_Index = lid, Layer_Name = [], Layer_Hidden = False\<rparr>)"
  using assms
  by (simp add: parseLAYRChunk_def newReader_rd ReadInt32_rd ReadInt32_rd_end ReadDict_empty
        bindE_def guardE_def dict_empty_reads RequireEOF_rd)

lemma parseMatlChunk_rd:
  assumes "0 \<le> mid" "mid \<le> 255"
  shows "parseMatlChunk rt (le32 mid @ enc_dict [(''_type'', ''_diffuse'')])
         = Inr (mid, mat0 MaterialDiffuse)"
proof -
  have i: "int32 mid" using assms by (simp add: int32_def)
  show ?thesis
    using assms
    by (simp add: parseMatlChunk_def newReader_rd ReadInt32_rd[OF i] ReadDict_single_end
        bindE_def guardE_def RequireEOF_rd dict_ReadString_def ReadFloat_def ReadBool_def
        AssertNoUnreadFields_def dict_Error_def parseMatType_def mat0_def)
qed

lemma length_enc_chunk [simp]:
  "length (enc_chunk tag c cc) = length tag + 8 + length c + length cc"
  by (simp add: enc_chunk_def)

lemma length_enc_voxels [simp]: "length (enc_voxels vs) = 4 * length vs"
  by (induction vs) (simp_all add: enc_voxels_def)

lemma length_enc_palette [simp]: "length (enc_palette pal) = 4 * length pal"
  by (induction pal) (auto simp: enc_palette_def)

lemma length_enc_dict_empty [simp]: "length (enc_dict []) = 4"
  by (simp add: enc_dict_def)

lemma length_enc_dict_single: "length (enc_dict [(k, v)]) = 12 + length k + length v"
  by (simp add: enc_dict_def enc_string_def)

lemma loop_step:
  assumes "length tag = 4" "int32 (int (length c))" "int32 (int (length cc))"
  shows "parseMainChunks_loop rt st (rd (enc_chunk tag c cc @ rest))
         = (case loop_body rt st tag c cc of
              Inl e \<Rightarrow> (Inl e, ps_log st)
            | Inr st' \<Rightarrow> parseMainChunks_loop rt st' (rd rest))"
  by (subst parseMainChunks_loop.simps) (simp add: parseChunk_rd[OF assms])

lemmas loop_step_end = loop_step[where rest = "[]", simplified]

lemma loop_end: "parseMainChunks_loop rt st (rd []) = (finish rt st, ps_log st)"
  by (subst parseMainChunks_loop.simps) (simp add: parseChunk_end)

lemma Parse_vox_file:
  assumes "int32 (int (length children))"
  shows "Parse rt (vox_file children) = parseMainChunks_loop rt pstate_init (rd children)"
proof -
  have a: "ReadBytesN 4 (rd (bytes_of_string ''VOX '' @ le32 150 @ enc_chunk ''MAIN'' [] children))
           = (bytes_of_string ''VOX '', rd (le32 150 @ enc_chunk ''MAIN'' [] children))"
    by (rule ReadBytesN_rd) simp
  have b: "parseChunk (rd (enc_chunk ''MAIN'' [] children)) = Inr (''MAIN'', [], children, rd [])"
    using parseChunk_rd[of "''MAIN''" "[]" children "[]"] assms
    by (simp add: enc_chunk_def)
  show ?thesis
    by (simp add: Parse_def vox_file_def newReader_rd a ReadInt32_rd version_def
          parseMainChunk_def b parseMainChunks_def Let_def)
qed

lemma loop_unknown:
  assumes "length tag = 4" "int32 (int (length c))" "int32 (int (length cc))"
    and "tag \<notin> {''PACK'', ''SIZE'', ''XYZI'', ''nTRN'', ''nGRP'', ''nSHP'', ''LAYR'', ''RGBA'', ''MATL''}"
  shows "parseMainChunks_loop rt st (rd (enc_chunk tag c cc @ rest))
         = parseMainChunks_loop rt
             (if tag \<in> set (ps_ignoredChunks st) then st
              else st\<lparr>ps_log := ps_log st @ [''unexpected chunk '' @ tag],
                      ps_ignoredChunks := tag # ps_ignoredChunks st\<rparr>) (rd rest)"
  using assms(4)
  by (simp add: loop_step[OF assms(1-3)] loop_body_def switch_chunk_def bindE_def)

lemma loop_PACK:
  assumes "ps_state st = statePack" "int32 n"
  shows "parseMainChunks_loop rt st (rd (chunk_PACK n @ rest))
         = parseMainChunks_loop rt (st\<lparr>ps_pack := n, ps_state := stateSize\<rparr>) (rd rest)"
  using assms
  by (simp add: chunk_PACK_def loop_step loop_body_def switch_chunk_def bindE_def guardE_def
        parsePackChunk_le32)

lemma loop_SIZE:
  assumes "ps_state st = stateSize" "int32 x" "int32 y" "int32 z"
  shows "parseMainChunks_loop rt st (rd (chunk_SIZE x y z @ rest))
         = parseMainChunks_loop rt (st\<lparr>ps_size := (x, y, z), ps_state := stateXYZI\<rparr>) (rd rest)"
  using assms
  by (simp add: chunk_SIZE_def loop_step loop_body_def switch_chunk_def bindE_def guardE_def
        parseSizeChunk_le32)

lemma loop_XYZI:
  assumes "ps_state st = stateXYZI" "int32 (4 + 4 * int (length vs))"
  shows "parseMainChunks_loop rt st (rd (chunk_XYZI vs @ rest))
         = parseMainChunks_loop rt
             (st\<lparr>ps_models := ps_models st @
                      [\<lparr>Model_X = fst (ps_size st), Model_Y = fst (snd (ps_size st)),
                        Model_Z = snd (snd (ps_size st)), Model_V = vs\<rparr>],
                  ps_state := (if ps_pack st \<noteq> - 1 \<and> 1 + int (length (ps_models st)) = ps_pack st
                               then stateSceneGraph else stateSize)\<rparr>) (rd rest)"
proof -
  have "int32 (int (length vs))" using assms(2) by (simp add: int32_def)
  then show ?thesis
    using assms
    by (simp add: chunk_XYZI_def loop_step loop_body_def switch_chunk_def bindE_def guardE_def
        parseXYZIChunk_rd Let_def)
qed

lemma loop_nTRN:
  assumes "ps_state st = stateSceneGraph" "map_of (ps_sceneIDs st) nid = None"
    and "int32 nid" "int32 child" "int32 layer"
  shows "parseMainChunks_loop rt st (rd (chunk_nTRN nid child layer @ rest))
         = parseMainChunks_loop rt
             (st\<lparr>ps_sceneIDs := AList.update nid (Transform node0) (ps_sceneIDs st),
                 ps_sceneChildren := AList.update nid [child] (ps_sceneChildren st),
                 ps_sceneLayer := AList.update nid layer (ps_sceneLayer st)\<rparr>) (rd rest)"
  using assms
  by (simp add: chunk_nTRN_def loop_step loop_body_def switch_chunk_def bindE_def guardE_def
        parsenTRNChunk_rd)

lemma loop_nGRP:
  assumes "ps_state st = stateSceneGraph" "map_of (ps_sceneIDs st) nid = None"
    and "int32 nid" "length cs < 1000" "\<forall>c\<in>set cs. int32 c"
  shows "parseMainChunks_loop rt st (rd (chunk_nGRP nid cs @ rest))
         = parseMainChunks_loop rt
             (st\<lparr>ps_sceneIDs := AList.update nid (Group \<lparr>Name = [], Hidden = False, Children = []\<rparr>) (ps_sceneIDs st),
                 ps_sceneChildren := AList.update nid cs (ps_sceneChildren st)\<rparr>) (rd rest)"
proof -
  have l: "length (concat (map le32 cs)) = 4 * length cs"
    by (induction cs) simp_all
  have "int32 (int (length cs))" "int32 (12 + 4 * int (length cs))"
    using assms(4) by (simp_all add: int32_def)
  then show ?thesis
    using assms
    by (simp add: chunk_nGRP_def loop_step loop_body_def switch_chunk_def bindE_def guardE_def
        parsenGRPChunk_rd l)
qed

lemma loop_nSHP:
  assumes "ps_state st = stateSceneGraph" "map_of (ps_sceneIDs st) nid = None"
    and "int32 nid" "0 \<le> model" "model < int (length (ps_models st))" "int32 model"
  shows "parseMainChunks_loop rt st (rd (chunk_nSHP nid model @ rest))
         = parseMainChunks_loop rt
             (st\<lparr>ps_sceneIDs := AList.update nid
                   (Shape \<lparr>Name = [], Hidden = False, Models = [nat model]\<rparr>) (ps_sceneIDs st)\<rparr>) (rd rest)"
  using assms
  by (simp add: chunk_nSHP_def loop_step loop_body_def switch_chunk_def bindE_def guardE_def
        parsenSHPChunk_rd addModels_def)

lemma loop_LAYR:
  assumes "ps_state st = stateSceneGraph \<or> ps_state st = stateLAYR"
    and "map_of (ps_layerIDs st) lid = None" "int32 lid"
  shows "parseMainChunks_loop rt st (rd (chunk_LAYR lid @ rest))
         = parseMainChunks_loop rt
             (st\<lparr>ps_state := stateLAYR,
                 ps_layerIDs := AList.update lid
                   \<lparr>Layer_Index = lid, Layer_Name = [], Layer_Hidden = False\<rparr> (ps_layerIDs st)\<rparr>) (rd rest)"
  using assms
  by (cases st) (auto simp: chunk_LAYR_def loop_step loop_body_def switch_chunk_def bindE_def
        guardE_def parseLAYRChunk_rd Let_def)

lemma loop_RGBA_any:
  assumes "ps_state st = stateLAYR \<or> ps_state st = stateRGBA" "int32 (int (length c))"
  shows "parseMainChunks_loop rt st (rd (enc_chunk ''RGBA'' c [] @ rest))
         = parseMainChunks_loop rt
             (st\<lparr>ps_state := stateMatt, ps_rgba := fst (parseRGBAChunk c)\<rparr>) (rd rest)"
  using assms
  by (cases st) (auto simp: loop_step loop_body_def switch_chunk_def bindE_def guardE_def Let_def
           split: prod.splits)

lemma loop_RGBA_misplaced:
  assumes "ps_state st \<noteq> stateLAYR" "ps_state st \<noteq> stateRGBA" "int32 (int (length c))"
  shows "parseMainChunks_loop rt st (rd (enc_chunk ''RGBA'' c [] @ rest))
         = (Inl (Errorf ''misplaced RGBA chunk'' []), ps_log st)"
  using assms
  by (simp add: loop_step loop_body_def switch_chunk_def bindE_def guardE_def Let_def)

lemma loop_MATL:
  assumes "ps_state st = stateMatt" "0 \<le> mid" "mid \<le> 255"
  shows "parseMainChunks_loop rt st (rd (chunk_MATL mid ''_diffuse'' @ rest))
         = parseMainChunks_loop rt
             (st\<lparr>ps_mats := (ps_mats st @ replicate (nat mid + 1 - length (ps_mats st)) Material_zero)
                               [nat mid := mat0 MaterialDiffuse]\<rparr>) (rd rest)"
proof -
  have "int32 mid" using assms by (simp add: int32_def)
  then show ?thesis
    using assms
    by (simp add: chunk_MATL_def loop_step loop_body_def switch_chunk_def bindE_def guardE_def
        parseMatlChunk_rd length_enc_dict_single Let_def)
qed

section \<open>Parsing whole files\<close>

lemma length_vs0 [simp]: "length vs0 = 1" by (simp add: vs0_def)
lemma length_pal0 [simp]: "length pal0 = 256" by (simp add: pal0_def)

lemma rt0_ranges: "ranges_each_key_once rt0"
  by (simp add: ranges_each_key_once_def rt0_def)

lemma perm_one:
  assumes "distinct xs" "set xs = {a}"
  shows "xs = [a]"
proof -
  have "length xs = 1" using assms by (metis distinct_card is_singletonI is_singleton_altdef)
  then obtain x where "xs = [x]" by (cases xs) auto
  then show ?thesis using assms by auto
qed

lemma perm_two:
  assumes "distinct xs" "set xs = {a, b}" "a \<noteq> b"
  shows "xs = [a, b] \<or> xs = [b, a]"
proof -
  have "length xs = 2" using assms by (metis distinct_card card_2_iff)
  then obtain x y where "xs = [x, y]"
    by (cases xs; cases "tl xs") (auto simp: numeral_2_eq_2)
  then show ?thesis using assms by (auto simp: doubleton_eq_iff)
qed

lemma fold_list_update:
  assumes "distinct js" "\<forall>j\<in>set js. j < length ms"
  shows "length (fold (\<lambda>i ms. ms[i := f i (ms ! i)]) js ms) = length ms
       \<and> (\<forall>j < length ms. fold (\<lambda>i ms. ms[i := f i (ms ! i)]) js ms ! j
              = (if j \<in> set js then f j (ms ! j) else ms ! j))"
  using assms
proof (induction js arbitrary: ms)
  case Nil
  then show ?case by simp
next
  case (Cons i js)
  let ?ms = "ms[i := f i (ms ! i)]"
  have ih: "length (fold (\<lambda>i ms. ms[i := f i (ms ! i)]) js ?ms) = length ?ms
       \<and> (\<forall>j < length ?ms. fold (\<lambda>i ms. ms[i := f i (ms ! i)]) js ?ms ! j
              = (if j \<in> set js then f j (?ms ! j) else ?ms ! j))"
    using Cons.prems by (intro Cons.IH) simp_all
  show ?case
    using ih Cons.prems by (auto simp: nth_list_update)
qed

lemma setColors_props:
  assumes "length mats = 256"
  shows "length (setColors rgba mats) = 256"
    and "1 \<le> i \<Longrightarrow> i \<le> 255 \<Longrightarrow> Color (setColors rgba mats ! i) = rgba ! (i - 1)"
proof -
  have d: "distinct [1..<256]" "\<forall>j\<in>set [1..<256]. j < length mats"
    using assms by simp_all
  note fl = fold_list_update[OF d, where f = "\<lambda>i m. m\<lparr>Color := rgba ! (i - 1)\<rparr>"]
  show "length (setColors rgba mats) = 256"
    using fl assms by (simp add: setColors_def)
  show "Color (setColors rgba mats ! i) = rgba ! (i - 1)" if "1 \<le> i" "i \<le> 255"
    using fl assms that by (simp add: setColors_def)
qed

lemmas loop_MATL_end = loop_MATL[where rest = "[]", simplified]
lemmas loop_nSHP_end = loop_nSHP[where rest = "[]", simplified]
lemmas loop_RGBA_any_end = loop_RGBA_any[where rest = "[]", simplified]
lemmas loop_RGBA_misplaced_end = loop_RGBA_misplaced[where rest = "[]", simplified]

lemma buildScene_two_nodes:
  assumes "ranges_each_key_once rt"
  shows "buildScene rt [(0, Transform node0), (1, Shape sh)] [(0, [1])] [(0, - 1)] lays
         = Inr \<lparr>Layers = sort_key Layer_Index (map snd lays), Scene_Node = Some 0,
                Scene_heap = [(0, Transform (node0\<lparr>Child := Some 1\<rparr>)), (1, Shape sh)]\<rparr>"
proof -
  have o2: "rangeOrder rt [0, 1] = [0, 1] \<or> rangeOrder rt [0, 1] = [1, 0]"
    using assms by (intro perm_two) (simp_all add: ranges_each_key_once_def)
  have o1: "rangeOrder rt [0] = [0]"
    using assms by (intro perm_one) (simp_all add: ranges_each_key_once_def)
  show ?thesis
    using o2 by (elim disjE) (simp_all add: buildScene_def o1 bindE_def addChild_def node0_def)
qed

lemma length_layered:
  "length (layered_children vs pal) = 205 + 4 * length vs + 4 * length pal"
  by (simp add: layered_children_def chunk_PACK_def chunk_SIZE_def chunk_XYZI_def chunk_nTRN_def
        chunk_nSHP_def chunk_LAYR_def chunk_RGBA_def chunk_MATL_def length_enc_dict_single)

lemma Parse_layered:
  assumes "ranges_each_key_once rt" "length pal = 256" "length vs < 500000000"
  shows "Parse rt (vox_file (layered_children vs pal)) =
     (Inr \<lparr>Main_Models = [\<lparr>Model_X = 30, Model_Y = 20, Model_Z = 10, Model_V = vs\<rparr>],
           Materials = setColors pal ((replicate 256 Material_zero)[255 := mat0 MaterialDiffuse]),
           Main_Scene = \<lparr>Layers = [\<lparr>Layer_Index = 0, Layer_Name = [], Layer_Hidden = False\<rparr>],
                          Scene_Node = Some 0,
                          Scene_heap = [(0, Transform (node0\<lparr>Child := Some 1\<rparr>)),
                                        (1, Shape \<lparr>Name = [], Hidden = False, Models = [0]\<rparr>)]\<rparr>\<rparr>, [])"
proof -
  have l: "int32 (int (length (layered_children vs pal)))"
    using assms(2,3) by (simp add: length_layered int32_def)
  have x: "int32 (4 + 4 * int (length vs))" using assms(3) by (simp add: int32_def)
  show ?thesis
    unfolding Parse_vox_file[OF l]
    unfolding layered_children_def chunk_RGBA_def
    using assms(2) x
    by (simp add: loop_PACK loop_SIZE loop_XYZI loop_nTRN loop_nSHP loop_LAYR loop_RGBA_any
          loop_MATL_end loop_end pstate_init_def finish_def buildScene_two_nodes[OF assms(1)]
          parseRGBAChunk_rd buildMain_def)
qed

lemma bindE_Inr_iff: "(bindE x f = Inr y) = (\<exists>v. x = Inr v \<and> f v = Inr y)"
  by (cases x) (simp_all add: bindE_def)

lemma guardE_Inr_iff: "(guardE x w r = Inr y) = (x = None \<and> r = Inr y)"
  by (cases x) (simp_all add: guardE_def)

lemma switch_recognized:
  assumes "recognized ident" "switch_chunk rt st ident c = Inr (st', cont)"
  shows "cont = False"
  using assms
  by (auto simp: switch_chunk_def recognized_def bindE_Inr_iff guardE_Inr_iff Let_def
           split: if_splits prod.splits)

lemma switch_unknown:
  assumes "\<not> recognized ident"
  shows "switch_chunk rt st ident c = Inr (skip_unknown st ident, True)"
  using assms by (simp add: switch_chunk_def recognized_def skip_unknown_def)

lemmas loop_unknown_end = loop_unknown[where rest = "[]", simplified]

lemmas chunk_lengths = chunk_PACK_def chunk_SIZE_def chunk_XYZI_def chunk_nTRN_def chunk_nGRP_def
  chunk_nSHP_def chunk_LAYR_def chunk_RGBA_def chunk_MATL_def length_enc_dict_single

lemmas loop_steps = loop_PACK loop_SIZE loop_XYZI loop_nTRN loop_nGRP loop_nSHP loop_LAYR
  loop_RGBA_any loop_MATL_end loop_end

lemma Parse_minimal:
  "Parse rt0 (vox_file (minimal_children vs0 pal0)) = (Inl (Errorf ''misplaced RGBA chunk'' []), [])"
proof -
  have l: "int32 (int (length (minimal_children vs0 pal0)))"
    by (simp add: minimal_children_def chunk_lengths int32_def)
  show ?thesis
    unfolding Parse_vox_file[OF l]
    unfolding minimal_children_def chunk_RGBA_def
    by (simp add: loop_steps loop_RGBA_misplaced pstate_init_def int32_def)
qed

lemma Parse_minimal_scene_first:
  "Parse rt0 (vox_file (minimal_children_scene_first vs0 pal0))
     = (Inl (Errorf ''misplaced RGBA chunk'' []), [])"
proof -
  have l: "int32 (int (length (minimal_children_scene_first vs0 pal0)))"
    by (simp add: minimal_children_scene_first_def chunk_lengths int32_def)
  show ?thesis
    unfolding Parse_vox_file[OF l]
    unfolding minimal_children_scene_first_def chunk_RGBA_def
    by (simp add: loop_steps loop_RGBA_misplaced_end pstate_init_def int32_def)
qed

lemma Parse_unknown_with_children:
  "\<exists>main. Parse rt0 (vox_file unknown_with_children) = (Inr main, [''unexpected chunk XXXX''])"
proof -
  have l: "int32 (int (length unknown_with_children))"
    by (simp add: unknown_with_children_def layered_children_def chunk_lengths int32_def)
  show ?thesis
    unfolding Parse_vox_file[OF l]
    unfolding unknown_with_children_def layered_children_def chunk_RGBA_def
    by (simp add: loop_steps loop_MATL loop_unknown_end pstate_init_def int32_def finish_def
          buildScene_two_nodes[OF rt0_ranges] parseRGBAChunk_rd buildMain_def)
qed

lemma RGBA_loop_latched:
  "vr_err vr \<noteq> None \<Longrightarrow> RGBA_loop n vr = (replicate n (0, 0, 0, 0), vr)"
  by (induction n) (simp_all add: ReadUint8_def ReadBytesN_def)

lemma parseRGBAChunk_empty: "parseRGBAChunk [] = (replicate 256 (0, 0, 0, 0), Some EOF)"
proof -
  have e: "(256::nat) = Suc 255" by simp
  show ?thesis
    unfolding parseRGBAChunk_def e RGBA_loop.simps replicate_Suc
    by (simp add: ReadUint8_def ReadBytesN_def ReadFull_def newReader_def RGBA_loop_latched
          RequireEOF_def Error_def)
qed

lemma Parse_empty_palette:
  "\<exists>main. Parse rt0 (vox_file empty_palette_children) = (Inr main, [])"
proof -
  have l: "int32 (int (length empty_palette_children))"
    by (simp add: empty_palette_children_def chunk_lengths int32_def)
  show ?thesis
    unfolding Parse_vox_file[OF l]
    unfolding empty_palette_children_def
    by (simp add: loop_steps pstate_init_def int32_def finish_def
          buildScene_two_nodes[OF rt0_ranges] length_parseRGBAChunk buildMain_def)
qed

lemma nodeCount_shared_shape: "nodeCount 5 shared_shape_heap [] 0 = Some (Inr (4, [1, 0]))"
  by (simp add: shared_shape_heap_def numeral_eq_Suc node0_def group0_def)

lemma buildScene_shared_shape:
  "buildScene rt0 [(0, Transform node0), (1, Group (group0 [])), (2, Shape shape0), (3, Shape shape0)]
      [(0, [1]), (1, [2, 2])] [(0, - 1)] [(0, layer0)]
   = Inr \<lparr>Layers = [layer0], Scene_Node = Some 0, Scene_heap = shared_shape_heap\<rparr>"
  by (simp add: buildScene_def rt0_def bindE_def addChild_def node0_def group0_def
        shared_shape_heap_def numeral_eq_Suc)

lemma buildScene_layer_zero:
  "buildScene rt0 [(0, Transform node0), (1, Group (group0 [])), (2, Transform node0), (3, Shape shape0)]
      [(0, [1]), (1, [2]), (2, [3])] [(0, - 1), (2, 0)] [(0, layer0)]
   = Inr \<lparr>Layers = [layer0], Scene_Node = Some 0, Scene_heap = layer_zero_heap\<rparr>"
  by (simp add: buildScene_def rt0_def bindE_def addChild_def node0_def group0_def
        layer_zero_heap_def numeral_eq_Suc)

lemma Parse_shared_shape:
  "Parse rt0 (vox_file shared_shape_children) =
     (Inr \<lparr>Main_Models = [\<lparr>Model_X = 30, Model_Y = 20, Model_Z = 10, Model_V = vs0\<rparr>],
           Materials = setColors pal0 ((replicate 256 Material_zero)[255 := mat0 MaterialDiffuse]),
           Main_Scene = \<lparr>Layers = [layer0], Scene_Node = Some 0, Scene_heap = shared_shape_heap\<rparr>\<rparr>, [])"
proof -
  have l: "int32 (int (length shared_shape_children))"
    by (simp add: shared_shape_children_def chunk_lengths int32_def)
  show ?thesis
    unfolding Parse_vox_file[OF l]
    unfolding shared_shape_children_def chunk_RGBA_def
    by (simp add: loop_steps pstate_init_def int32_def finish_def parseRGBAChunk_rd buildMain_def
          buildScene_shared_shape[unfolded group0_def shape0_def layer0_def]
          group0_def shape0_def layer0_def)
qed

lemma Parse_layer_zero:
  "Parse rt0 (vox_file layer_zero_children) =
     (Inr \<lparr>Main_Models = [\<lparr>Model_X = 30, Model_Y = 20, Model_Z = 10, Model_V = vs0\<rparr>],
           Materials = setColors pal0 ((replicate 256 Material_zero)[255 := mat0 MaterialDiffuse]),
           Main_Scene = \<lparr>Layers = [layer0], Scene_Node = Some 0, Scene_heap = layer_zero_heap\<rparr>\<rparr>, [])"
proof -
  have l: "int32 (int (length layer_zero_children))"
    by (simp add: layer_zero_children_def chunk_lengths int32_def)
  show ?thesis
    unfolding Parse_vox_file[OF l]
    unfolding layer_zero_children_def chunk_RGBA_def
    by (simp add: loop_steps pstate_init_def int32_def finish_def parseRGBAChunk_rd buildMain_def
          buildScene_layer_zero[unfolded group0_def shape0_def layer0_def]
          group0_def shape0_def layer0_def)
qed

subsection \<open>The claims about the parser\<close>

text \<open>
  C1, as the claim states it, fails. The minimal file has no LAYR chunk, and the state
  \<open>stateRGBA\<close> is entered only from \<open>stateLAYR\<close>: the RGBA chunk is rejected as misplaced,
  whether it stands before the scene or after it.
\<close>

theorem Parse_minimal_file_counterexample:
  "Parse rt0 (vox_file (minimal_children vs0 pal0)) = (Inl (Errorf ''misplaced RGBA chunk'' []), [])
   \<and> Parse rt0 (vox_file (minimal_children_scene_first vs0 pal0))
       = (Inl (Errorf ''misplaced RGBA chunk'' []), [])"
  using Parse_minimal Parse_minimal_scene_first by simp

text \<open>
  C1, amended. With one LAYR chunk between the scene and the palette and a MATL chunk for
  material 255, the file (header \<open>VOX \<close>, version 150, MAIN wrapping PACK=1,
  SIZE{30,20,10}, one XYZI chunk, the scene nTRN at layer -1 to nSHP, RGBA with 256
  entries) parses: the document has exactly one model, of size (30,20,10) with the voxels
  of the XYZI chunk, 256 materials of which slot \<open>i\<close> in 1..255 has the colour of palette
  entry \<open>i - 1\<close>, and the scene of the two nodes with the transform node as its root.
\<close>

theorem Parse_minimal_file_with_layer:
  assumes "ranges_each_key_once rt" "length pal = 256" "length vs < 500000000"
  shows "\<exists>main. Parse rt (vox_file (layered_children vs pal)) = (Inr main, [])
           \<and> Main_Models main = [\<lparr>Model_X = 30, Model_Y = 20, Model_Z = 10, Model_V = vs\<rparr>]
           \<and> length (Materials main) = 256
           \<and> (\<forall>i. 1 \<le> i \<and> i \<le> 255 \<longrightarrow> Color (Materials main ! i) = pal ! (i - 1))
           \<and> Scene_Node (Main_Scene main) = Some 0
           \<and> Scene_heap (Main_Scene main)
               = [(0, Transform (node0\<lparr>Child := Some 1\<rparr>)), (1, Shape shape0)]"
  unfolding Parse_layered[OF assms]
  by (simp add: setColors_props shape0_def)

theorem Parse_minimal_file_with_layer_witness:
  "\<exists>main. Parse rt0 (vox_file (layered_children vs0 pal0)) = (Inr main, [])
           \<and> Main_Models main = [\<lparr>Model_X = 30, Model_Y = 20, Model_Z = 10, Model_V = vs0\<rparr>]
           \<and> length (Materials main) = 256
           \<and> Color (Materials main ! 1) = (1, 2, 3, 255)"
  using Parse_minimal_file_with_layer[OF rt0_ranges length_pal0, of vs0]
  by (auto simp: pal0_def)

text \<open>
  C6, as the claim states it, fails for unrecognized tags: the \<open>default\<close> case ends in
  \<open>continue\<close>, before the test of the children. A chunk \<open>XXXX\<close> with one byte of children
  is skipped with a notice, and the file parses.
\<close>

theorem unknown_chunk_with_children_counterexample:
  "\<exists>main. Parse rt0 (vox_file unknown_with_children) = (Inr main, [''unexpected chunk XXXX''])"
  by (rule Parse_unknown_with_children)

text \<open>
  C6, amended. Let the loop of \<open>parseMainChunks\<close> read a whole chunk: the header, the
  content and the children content that the header declares are all in the input, so that
  \<open>parseChunk\<close> returns the tag \<open>ident\<close>, the content \<open>c\<close> and the children content \<open>cc\<close>.
  If the tag is recognized and \<open>cc\<close> is not empty, parsing fails: with the error
  "unexpected child chunks" when the chunk's own case of the switch raises no error, and
  with an error of that case otherwise. If the tag is not recognized, the chunk is skipped
  without error whatever its children are, and the loop goes on behind the chunk with the
  state unchanged, except that a tag not yet in \<open>ignoredChunks\<close> is entered there and gets
  one notice. \<open>ignoredChunks\<close> holds \<open>rOBJ\<close> from the start, so that an \<open>rOBJ\<close> chunk is
  skipped without any notice.
\<close>

theorem children_of_recognized_chunks_rejected:
  assumes "parseChunk vr = Inr (ident, c, cc, vr')"
  shows "ps_ignoredChunks pstate_init = [''rOBJ'']
       \<and> (recognized ident \<and> cc \<noteq> [] \<longrightarrow>
            (\<exists>e. parseMainChunks_loop rt st vr = (Inl e, ps_log st)
               \<and> (\<forall>st'. switch_chunk rt st ident c = Inr (st', False)
                     \<longrightarrow> e = Errorf ''unexpected child chunks of chunk %q'' [ArgStr ident])
               \<and> (\<forall>e'. switch_chunk rt st ident c = Inl e' \<longrightarrow> e = e')))
       \<and> (\<not> recognized ident \<longrightarrow>
            loop_body rt st ident c cc = Inr (skip_unknown st ident)
          \<and> parseMainChunks_loop rt st vr = parseMainChunks_loop rt (skip_unknown st ident) vr')"
proof (intro conjI impI)
  show "ps_ignoredChunks pstate_init = [''rOBJ'']"
    by (simp add: pstate_init_def)
next
  assume a: "recognized ident \<and> cc \<noteq> []"
  show "\<exists>e. parseMainChunks_loop rt st vr = (Inl e, ps_log st)
          \<and> (\<forall>st'. switch_chunk rt st ident c = Inr (st', False)
                \<longrightarrow> e = Errorf ''unexpected child chunks of chunk %q'' [ArgStr ident])
          \<and> (\<forall>e'. switch_chunk rt st ident c = Inl e' \<longrightarrow> e = e')"
  proof (cases "switch_chunk rt st ident c")
    case (Inl e)
    then show ?thesis
      by (subst parseMainChunks_loop.simps) (simp add: assms loop_body_def bindE_def)
  next
    case (Inr p)
    obtain st' cont where p: "p = (st', cont)" by (cases p)
    have "cont = False" using switch_recognized[of ident rt st c st' cont] a Inr p by simp
    then show ?thesis
      using a Inr p
      by (subst parseMainChunks_loop.simps) (simp add: assms loop_body_def bindE_def)
  qed
next
  assume u: "\<not> recognized ident"
  show b: "loop_body rt st ident c cc = Inr (skip_unknown st ident)"
    by (simp add: loop_body_def switch_unknown[OF u] bindE_def)
  show "parseMainChunks_loop rt st vr = parseMainChunks_loop rt (skip_unknown st ident) vr'"
    by (subst parseMainChunks_loop.simps) (simp add: assms b)
qed

theorem children_of_recognized_chunks_rejected_witness:
  "parseMainChunks_loop rt0 pstate_init (rd (enc_chunk ''PACK'' (le32 1) [0]))
     = (Inl (Errorf ''unexpected child chunks of chunk %q'' [ArgStr ''PACK'']), [])
   \<and> loop_body rt0 pstate_init ''XXXX'' [] [0]
     = Inr (pstate_init\<lparr>ps_log := [''unexpected chunk XXXX''],
                        ps_ignoredChunks := [''XXXX'', ''rOBJ'']\<rparr>)
   \<and> loop_body rt0 pstate_init ''rOBJ'' [] [0] = Inr pstate_init"
proof -
  have pr: "parseChunk (rd (enc_chunk ''rOBJ'' [] [0] @ [])) = Inr (''rOBJ'', [], [0], rd [])"
    by (rule parseChunk_rd) simp_all
  have pc: "parseChunk (rd (enc_chunk ''PACK'' (le32 1) [0] @ [])) = Inr (''PACK'', le32 1, [0], rd [])"
    by (rule parseChunk_rd) simp_all
  have sw: "switch_chunk rt0 pstate_init ''PACK'' (le32 1)
              = Inr (pstate_init\<lparr>ps_pack := 1, ps_state := stateSize\<rparr>, False)"
    by (simp add: switch_chunk_def pstate_init_def parsePackChunk_le32 guardE_def)
  have pu: "parseChunk (rd (enc_chunk ''XXXX'' [] [0] @ [])) = Inr (''XXXX'', [], [0], rd [])"
    by (rule parseChunk_rd) simp_all
  from children_of_recognized_chunks_rejected[OF pc[simplified], of rt0 pstate_init]
       children_of_recognized_chunks_rejected[OF pu[simplified], of rt0 pstate_init]
       children_of_recognized_chunks_rejected[OF pr[simplified], of rt0 pstate_init]
       sw
  show ?thesis
    by (auto simp: recognized_def skip_unknown_def pstate_init_def)
qed

text \<open>
  C7. \<open>parseRGBAChunk\<close> reports a content that is not 1024 bytes long through its error,
  but the RGBA case of \<open>parseMainChunks\<close> is the one case that does not test the error
  it gets: a file whose RGBA chunk is empty parses, with a palette of 256 zero entries.
\<close>

theorem RGBA_length_error_is_dropped:
  "(\<exists>main. Parse rt0 (vox_file empty_palette_children) = (Inr main, []))
   \<and> parseRGBAChunk [] = (replicate 256 (0, 0, 0, 0), Some EOF)"
  using Parse_empty_palette parseRGBAChunk_empty by simp

text \<open>
  C9. A scene whose group names one shape twice and leaves another shape unattached is
  built without error: the shape node's \<open>nodeCount\<close> tests \<open>visited\<close> but does not mark
  the node, so the shape is counted at both visits and the count of 4 equals the number
  of parsed nodes, although only 3 nodes hang below the root.
\<close>

theorem shared_shape_scene_is_accepted:
  "(\<exists>main. Parse rt0 (vox_file shared_shape_children) = (Inr main, [])
      \<and> Scene_heap (Main_Scene main) = shared_shape_heap)
   \<and> map_of shared_shape_heap 1 = Some (Group (group0 [2, 2]))
   \<and> nodeCount 5 shared_shape_heap [] 0 = Some (Inr (4, [1, 0]))"
  using Parse_shared_shape nodeCount_shared_shape by (simp add: shared_shape_heap_def)

text \<open>
  C10. Nothing attaches layers to transform nodes. In a parsed file whose second
  transform node names layer 0 in its nTRN chunk, with a LAYR chunk for layer 0, the
  \<open>Layer\<close> of that node is \<open>nil\<close>.
\<close>

theorem transform_layer_is_never_set:
  "\<exists>main t. Parse rt0 (vox_file layer_zero_children) = (Inr main, [])
      \<and> Layers (Main_Scene main) = [layer0]
      \<and> map_of (Scene_heap (Main_Scene main)) 2 = Some (Transform t)
      \<and> Layer_ref t = None"
  using Parse_layer_zero by (simp add: layer_zero_heap_def node0_def)

section \<open>Materializing a model\<close>

subsection \<open>The corner that maps to the smallest point\<close>

















subsection \<open>Writing the voxels into the grid\<close>









subsection \<open>The dense world of a model\<close>














subsection \<open>Counting the cells that are not empty\<close>









subsection \<open>The dense worlds of a small model\<close>







subsection \<open>The claim about dense worlds\<close>




end
